theory Spec2Isabelle
  imports Complex_Main "HOL-Library.Option_ord"
begin

section \<open>Master availability and job matching (schedule\_manager.py, main.py)\<close>

text \<open>
  A shallow embedding of \<^verbatim>\<open>ScheduleManager\<close> (src/schedule\_manager.py) and of
  \<^verbatim>\<open>find_available_master\<close> (src/main.py).

  Conventions of the model.
  \<^item> A calendar day is its proleptic Gregorian ordinal (Python's \<^verbatim>\<open>date.toordinal()\<close>),
    an \<open>int\<close>. The dictionary key \<^verbatim>\<open>date.strftime("%Y-%m-%d")\<close> is a one-to-one
    rendering of the calendar day, so the key of the model is the day itself.
  \<^item> A \<^verbatim>\<open>datetime\<close> is a day and the microseconds elapsed in it; a \<^verbatim>\<open>time\<close> is the
    microseconds since midnight (naive values: the code never attaches a time zone).
  \<^item> \<^verbatim>\<open>time.fromisoformat\<close> is a library function: the operations that call it take it
    as the parameter \<open>fromisoformat\<close>, where \<open>None\<close> stands for its \<^verbatim>\<open>ValueError\<close>.
  \<^item> The \<^verbatim>\<open>LIKE\<close> operator belongs to the SQL engine: the queries that use it take it
    as the parameter \<open>like\<close> (pattern first, value second).
  \<^item> The table \<^verbatim>\<open>masters\<close> is the list of its rows in the order in which a
    \<^verbatim>\<open>SELECT\<close> without \<^verbatim>\<open>ORDER BY\<close> returns them. The column \<^verbatim>\<open>id\<close> is the
    \<^verbatim>\<open>INTEGER PRIMARY KEY\<close>, so a scan of the table by SQLite returns the rows in ascending
    order of \<^verbatim>\<open>id\<close>; the definitions do not depend on it.
  \<^item> \<^verbatim>\<open>rating\<close> is a \<^verbatim>\<open>REAL\<close> column: a rating of the model is the real number that
    the stored double denotes, and comparing two ratings or two scores is exact. The
    arithmetic on doubles is not: \<^verbatim>\<open>(rating * 10) - workload\<close> rounds the product and the
    difference, so that expression is the parameter \<open>times10_minus\<close> of the operation that
    computes it.
\<close>

subsection \<open>Dates and times\<close>

type_synonym time = nat
type_synonym date_key = int

record datetime =
  dt_day :: int
  dt_us :: int

definition strftime_ymd :: "datetime \<Rightarrow> date_key" where
  \<comment> \<open>\<^verbatim>\<open>date.strftime("%Y-%m-%d")\<close>\<close>
  "strftime_ymd d = dt_day d"

definition strptime_ymd :: "date_key \<Rightarrow> datetime" where
  \<comment> \<open>\<^verbatim>\<open>datetime.strptime(s, "%Y-%m-%d")\<close>: midnight of that day\<close>
  "strptime_ymd k = \<lparr>dt_day = k, dt_us = 0\<rparr>"

definition weekday :: "datetime \<Rightarrow> int" where
  \<comment> \<open>\<^verbatim>\<open>datetime.weekday()\<close>: Monday is 0; ordinal 1 (0001-01-01) is a Monday\<close>
  "weekday d = (dt_day d + 6) mod 7"

definition us_per_day :: int where
  "us_per_day = 86400000000"

definition timedelta_us :: "datetime \<Rightarrow> datetime \<Rightarrow> int" where
  \<comment> \<open>\<^verbatim>\<open>a - b\<close> on naive datetimes, as a count of microseconds\<close>
  "timedelta_us a b = (dt_day a - dt_day b) * us_per_day + (dt_us a - dt_us b)"

definition timedelta_hours :: "int \<Rightarrow> int" where
  \<comment> \<open>\<^verbatim>\<open>timedelta(hours=h)\<close>, in microseconds\<close>
  "timedelta_hours h = h * 3600000000"

subsection \<open>TimeSlot and DaySchedule\<close>

record TimeSlot =
  slot_start :: time
  slot_end :: time

definition contains :: "TimeSlot \<Rightarrow> time \<Rightarrow> bool" where
  \<comment> \<open>\<^verbatim>\<open>TimeSlot.__contains__\<close>\<close>
  "contains slot check_time = (slot_start slot \<le> check_time \<and> check_time \<le> slot_end slot)"

record DaySchedule =
  date :: datetime
  available :: bool
  time_slot :: "TimeSlot option"
  booked_jobs :: "int list"

definition is_available_at :: "DaySchedule \<Rightarrow> time \<Rightarrow> bool" where
  "is_available_at day check_time =
     (if \<not> available day then False
      else case time_slot day of
             None \<Rightarrow> False
           | Some slot \<Rightarrow> contains slot check_time)"

text \<open>
  The serialised form of a day (\<^verbatim>\<open>DaySchedule.to_dict\<close>): the date is kept as its
  \<^verbatim>\<open>%Y-%m-%d\<close> rendering only, so the time of day of \<open>date\<close> is lost on the way to the
  store. The ISO rendering of the two times of a slot is read back unchanged by
  \<^verbatim>\<open>TimeSlot.from_dict\<close>, so the slot is kept as it is.
\<close>

record day_dict =
  d_date :: date_key
  d_available :: bool
  d_time_slot :: "TimeSlot option"
  d_booked_jobs :: "int list"

definition to_dict :: "DaySchedule \<Rightarrow> day_dict" where
  "to_dict day = \<lparr>d_date = strftime_ymd (date day), d_available = available day,
                   d_time_slot = time_slot day, d_booked_jobs = booked_jobs day\<rparr>"

definition from_dict :: "day_dict \<Rightarrow> DaySchedule" where
  "from_dict data = \<lparr>date = strptime_ymd (d_date data), available = d_available data,
                      time_slot = d_time_slot data, booked_jobs = d_booked_jobs data\<rparr>"

type_synonym schedule = "date_key \<rightharpoonup> DaySchedule"

subsection \<open>The table of masters\<close>

text \<open>
  One row of \<^verbatim>\<open>masters\<close>, with the columns the operations read or write. A \<open>None\<close>
  is SQL's \<^verbatim>\<open>NULL\<close>. \<open>schedule_json\<close> holds the decoded JSON object.
\<close>

record master =
  row_id :: int
  specializations :: string
  city :: string
  rating :: "real option"
  is_active :: bool
  terminal_active :: bool
  schedule_json :: "(date_key \<rightharpoonup> day_dict) option"
  last_schedule_confirmation :: "datetime option"

type_synonym masters = "master list"

datatype error = ValueError | TypeError

definition fetchone_by_id :: "masters \<Rightarrow> int \<Rightarrow> master option" where
  \<comment> \<open>\<^verbatim>\<open>SELECT ... FROM masters WHERE id = ?\<close> followed by \<^verbatim>\<open>fetchone()\<close>\<close>
  "fetchone_by_id db master_id = find (\<lambda>row. row_id row = master_id) db"

definition set_master_schedule :: "masters \<Rightarrow> int \<Rightarrow> schedule \<Rightarrow> masters" where
  \<comment> \<open>\<^verbatim>\<open>UPDATE masters SET schedule_json = ? WHERE id = ?\<close>\<close>
  "set_master_schedule db master_id sched =
     map (\<lambda>row. if row_id row = master_id
                 then row\<lparr>schedule_json := Some (map_option to_dict \<circ> sched)\<rparr>
                 else row) db"

definition get_master_schedule :: "masters \<Rightarrow> int \<Rightarrow> schedule" where
  "get_master_schedule db master_id =
     (case fetchone_by_id db master_id of
        None \<Rightarrow> Map.empty
      | Some row \<Rightarrow>
          (case schedule_json row of
             None \<Rightarrow> Map.empty
           | Some schedule_data \<Rightarrow> map_option from_dict \<circ> schedule_data))"

subsection \<open>Day updates and availability\<close>

definition truthy :: "string option \<Rightarrow> bool" where
  \<comment> \<open>Python's truth value of an \<^verbatim>\<open>Optional[str]\<close>: \<^verbatim>\<open>None\<close> and \<^verbatim>\<open>""\<close> are false\<close>
  "truthy s = (case s of None \<Rightarrow> False | Some x \<Rightarrow> x \<noteq> [])"

definition new_TimeSlot :: "(string \<Rightarrow> time option) \<Rightarrow> string \<Rightarrow> string \<Rightarrow> error + TimeSlot" where
  \<comment> \<open>\<^verbatim>\<open>TimeSlot(start=time.fromisoformat(a), end=time.fromisoformat(b))\<close>\<close>
  "new_TimeSlot fromisoformat a b =
     (case fromisoformat a of
        None \<Rightarrow> Inl ValueError
      | Some s \<Rightarrow>
          (case fromisoformat b of
             None \<Rightarrow> Inl ValueError
           | Some e \<Rightarrow> Inr \<lparr>slot_start = s, slot_end = e\<rparr>))"

definition day_time_slot ::
  "(string \<Rightarrow> time option) \<Rightarrow> bool \<Rightarrow> string option \<Rightarrow> string option \<Rightarrow>
   error + TimeSlot option" where
  \<comment> \<open>the value of \<^verbatim>\<open>time_slot\<close> in \<^verbatim>\<open>update_day_schedule\<close>: \<^verbatim>\<open>None\<close>, replaced by a
      slot \<^verbatim>\<open>if available and start_time and end_time\<close>\<close>
  "day_time_slot fromisoformat avail start_time end_time =
     (if avail \<and> truthy start_time \<and> truthy end_time
      then (case (start_time, end_time) of
              (Some a, Some b) \<Rightarrow> map_sum id Some (new_TimeSlot fromisoformat a b)
            | _ \<Rightarrow> Inr None)
      else Inr None)"

definition update_day_schedule ::
  "(string \<Rightarrow> time option) \<Rightarrow> masters \<Rightarrow> int \<Rightarrow> datetime \<Rightarrow> bool \<Rightarrow>
   string option \<Rightarrow> string option \<Rightarrow> error + masters" where
  "update_day_schedule fromisoformat db master_id dt avail start_time end_time =
     (let sched = get_master_schedule db master_id;
          date_key = strftime_ymd dt
      in case day_time_slot fromisoformat avail start_time end_time of
           Inl err \<Rightarrow> Inl err
         | Inr slot \<Rightarrow>
             Inr (set_master_schedule db master_id
                    (sched(date_key \<mapsto>
                       \<lparr>date = dt, available = avail, time_slot = slot,
                        booked_jobs = (case sched date_key of
                                         None \<Rightarrow> []
                                       | Some day \<Rightarrow> booked_jobs day)\<rparr>))))"

definition is_master_available :: "masters \<Rightarrow> int \<Rightarrow> datetime \<Rightarrow> time option \<Rightarrow> bool" where
  \<comment> \<open>a \<^verbatim>\<open>time\<close> object is always true in Python 3.5 and later, so \<^verbatim>\<open>if check_time\<close>
      tests for \<^verbatim>\<open>None\<close> only\<close>
  "is_master_available db master_id dt check_time =
     (let sched = get_master_schedule db master_id;
          date_key = strftime_ymd dt
      in case sched date_key of
           None \<Rightarrow> False
         | Some day_schedule \<Rightarrow>
             (case check_time of
                Some t \<Rightarrow> is_available_at day_schedule t
              | None \<Rightarrow> available day_schedule))"

definition get_available_masters ::
  "(string \<Rightarrow> string \<Rightarrow> bool) \<Rightarrow> masters \<Rightarrow> string \<Rightarrow> string \<Rightarrow> datetime \<Rightarrow> time option \<Rightarrow> int list" where
  "get_available_masters like db specialization cty dt check_time =
     (let all_masters =
            map row_id
              (filter (\<lambda>row. is_active row \<and> city row = cty \<and>
                              like (''%'' @ specialization @ ''%'') (specializations row)) db)
      in filter (\<lambda>master_id. is_master_available db master_id dt check_time) all_masters)"

definition book_master_for_job :: "masters \<Rightarrow> int \<Rightarrow> int \<Rightarrow> datetime \<Rightarrow> masters" where
  "book_master_for_job db master_id job_id dt =
     (let sched = get_master_schedule db master_id;
          date_key = strftime_ymd dt
      in case sched date_key of
           None \<Rightarrow> db
         | Some day \<Rightarrow>
             set_master_schedule db master_id
               (sched(date_key \<mapsto> day\<lparr>booked_jobs := booked_jobs day @ [job_id]\<rparr>)))"

definition needs_schedule_confirmation :: "masters \<Rightarrow> datetime \<Rightarrow> int \<Rightarrow> bool" where
  \<comment> \<open>\<open>now\<close> is the value of \<^verbatim>\<open>datetime.now()\<close>\<close>
  "needs_schedule_confirmation db now master_id =
     (case fetchone_by_id db master_id of
        None \<Rightarrow> True
      | Some row \<Rightarrow>
          (case last_schedule_confirmation row of
             None \<Rightarrow> True
           | Some last_confirmation \<Rightarrow>
               timedelta_us now last_confirmation > timedelta_hours 12))"

definition get_master_workload :: "masters \<Rightarrow> int \<Rightarrow> datetime \<Rightarrow> nat" where
  "get_master_workload db master_id dt =
     (let sched = get_master_schedule db master_id;
          date_key = strftime_ymd dt
      in case sched date_key of
           None \<Rightarrow> 0
         | Some day \<Rightarrow> length (booked_jobs day))"

subsection \<open>The weekly schedule\<close>

text \<open>
  The body of the loop \<^verbatim>\<open>for i in range(7)\<close> of \<^verbatim>\<open>create_weekly_schedule\<close>, run over
  the indices still to visit; \<open>today\<close> is the ordinal of \<^verbatim>\<open>datetime.now().date()\<close>. The
  two strings are parsed on each working day, so a string that does not parse raises on
  the first working day of the window and on no other.
\<close>

fun weekly_loop ::
  "(string \<Rightarrow> time option) \<Rightarrow> int \<Rightarrow> string \<Rightarrow> string \<Rightarrow> int list \<Rightarrow>
   nat list \<Rightarrow> schedule \<Rightarrow> error + schedule" where
  "weekly_loop fromisoformat today default_start default_end working_days [] sched = Inr sched"
| "weekly_loop fromisoformat today default_start default_end working_days (i # rest) sched =
     (let dt = \<lparr>dt_day = today + int i, dt_us = 0\<rparr>;
          avail = (weekday dt \<in> set working_days)
      in case (if avail then map_sum id Some (new_TimeSlot fromisoformat default_start default_end)
               else Inr None) of
           Inl err \<Rightarrow> Inl err
         | Inr slot \<Rightarrow>
             weekly_loop fromisoformat today default_start default_end working_days rest
               (sched(strftime_ymd dt \<mapsto>
                  \<lparr>date = dt, available = avail, time_slot = slot, booked_jobs = []\<rparr>)))"

definition create_weekly_schedule ::
  "(string \<Rightarrow> time option) \<Rightarrow> masters \<Rightarrow> datetime \<Rightarrow> int \<Rightarrow> string \<Rightarrow> string \<Rightarrow>
   int list option \<Rightarrow> error + masters" where
  \<comment> \<open>\<open>now\<close> is the value of \<^verbatim>\<open>datetime.now()\<close>; the defaults of the source are
      \<^verbatim>\<open>"08:00"\<close>, \<^verbatim>\<open>"20:00"\<close> and \<^verbatim>\<open>None\<close>\<close>
  "create_weekly_schedule fromisoformat db now master_id default_start default_end working_days =
     (let wd = (case working_days of None \<Rightarrow> [0, 1, 2, 3, 4] | Some l \<Rightarrow> l);
          today = dt_day now
      in case weekly_loop fromisoformat today default_start default_end wd [0..<7] Map.empty of
           Inl err \<Rightarrow> Inl err
         | Inr sched \<Rightarrow> Inr (set_master_schedule db master_id sched))"

subsection \<open>Selecting a master\<close>

definition sort_key_desc :: "('a \<Rightarrow> 'k::linorder) \<Rightarrow> 'a list \<Rightarrow> 'a list" where
  \<comment> \<open>a stable sort in descending order of the key (Python's \<^verbatim>\<open>sort(key=f, reverse=True)\<close>):
      the list is reversed, sorted upwards by a stable sort, and reversed again, so entries
      of equal key keep their order\<close>
  "sort_key_desc f xs = rev (sort_key f (rev xs))"

definition rating_or_default :: "real option \<Rightarrow> real" where
  \<comment> \<open>\<^verbatim>\<open>rating or 5.0\<close>: both \<^verbatim>\<open>None\<close> and \<^verbatim>\<open>0.0\<close> are false in Python\<close>
  "rating_or_default r = (case r of None \<Rightarrow> 5 | Some x \<Rightarrow> if x = 0 then 5 else x)"

fun master_scores ::
  "(real \<Rightarrow> nat \<Rightarrow> real) \<Rightarrow> masters \<Rightarrow> datetime \<Rightarrow> int list \<Rightarrow> error + (int \<times> real) list" where
  \<comment> \<open>the loop that fills \<^verbatim>\<open>master_scores\<close>; \<^verbatim>\<open>cursor.fetchone()[0]\<close> raises
      \<^verbatim>\<open>TypeError\<close> when there is no row; \<open>times10_minus r w\<close> is the double that
      \<^verbatim>\<open>(rating * 10) - workload\<close> evaluates to\<close>
  "master_scores times10_minus db dt [] = Inr []"
| "master_scores times10_minus db dt (master_id # rest) =
     (case fetchone_by_id db master_id of
        None \<Rightarrow> Inl TypeError
      | Some row \<Rightarrow>
          (let rtg = rating_or_default (rating row);
               workload = get_master_workload db master_id dt;
               score = times10_minus rtg workload
           in case master_scores times10_minus db dt rest of
                Inl err \<Rightarrow> Inl err
              | Inr scores \<Rightarrow> Inr ((master_id, score) # scores)))"

definition find_best_available_master ::
  "(string \<Rightarrow> string \<Rightarrow> bool) \<Rightarrow> (real \<Rightarrow> nat \<Rightarrow> real) \<Rightarrow> masters \<Rightarrow> string \<Rightarrow> string \<Rightarrow>
   datetime \<Rightarrow> time option \<Rightarrow> error + int option" where
  "find_best_available_master like times10_minus db specialization cty dt check_time =
     (let available_masters = get_available_masters like db specialization cty dt check_time
      in if available_masters = [] then Inr None
         else case master_scores times10_minus db dt available_masters of
                Inl err \<Rightarrow> Inl err
              | Inr scores \<Rightarrow>
                  (case sort_key_desc snd scores of
                     [] \<Rightarrow> Inr None
                   | best # _ \<Rightarrow> Inr (Some (fst best))))"

definition find_available_master ::
  "(string \<Rightarrow> string \<Rightarrow> bool) \<Rightarrow> masters \<Rightarrow> string \<Rightarrow> string \<Rightarrow> int option" where
  \<comment> \<open>main.py. \<^verbatim>\<open>ORDER BY rating DESC LIMIT 1\<close>: \<^verbatim>\<open>NULL\<close> sorts below every number (the
      order of \<open>option\<close>, with \<open>None\<close> least); among rows of equal rating the model
      keeps the order of the table\<close>
  "find_available_master like db category cty =
     (let rows = filter (\<lambda>row. is_active row \<and> terminal_active row \<and> city row = cty \<and>
                                 like (''%'' @ category @ ''%'') (specializations row)) db
      in case sort_key_desc rating rows of
           [] \<Rightarrow> None
         | result # _ \<Rightarrow> Some (row_id result))"

subsection \<open>Sample instances of the parameters\<close>

text \<open>
  For evaluating the model on concrete tables: a reader of the \<^verbatim>\<open>HH:MM\<close> form of
  \<^verbatim>\<open>time.fromisoformat\<close>, the matcher of the patterns \<^verbatim>\<open>%x%\<close> with no wildcard
  in \<^verbatim>\<open>x\<close>, by exact containment, and the arithmetic without rounding, which is the
  arithmetic of doubles wherever the product and the difference are doubles themselves
  (as for the ratings 4.0 and 5.0 with no job: 40.0 and 50.0).
\<close>

definition exact_times10_minus :: "real \<Rightarrow> nat \<Rightarrow> real" where
  "exact_times10_minus r w = r * 10 - real w"

definition digit_val :: "char \<Rightarrow> nat option" where
  "digit_val c = (let n = (of_char c :: nat) in if 48 \<le> n \<and> n \<le> 57 then Some (n - 48) else None)"

fun fromisoformat_hhmm :: "string \<Rightarrow> time option" where
  "fromisoformat_hhmm [h1, h2, c, m1, m2] =
     (case (digit_val h1, digit_val h2, digit_val m1, digit_val m2) of
        (Some a, Some b, Some x, Some y) \<Rightarrow>
          if c = CHR '':'' \<and> 10 * a + b < 24 \<and> 10 * x + y < 60
          then Some (((10 * a + b) * 60 + (10 * x + y)) * 60000000)
          else None
      | _ \<Rightarrow> None)"
| "fromisoformat_hhmm _ = None"

fun has_infix :: "string \<Rightarrow> string \<Rightarrow> bool" where
  "has_infix sub [] = (sub = [])"
| "has_infix sub (c # cs) = (take (length sub) (c # cs) = sub \<or> has_infix sub cs)"

definition like_contains :: "string \<Rightarrow> string \<Rightarrow> bool" where
  "like_contains pat s =
     (2 \<le> length pat \<and> hd pat = CHR ''%'' \<and> last pat = CHR ''%'' \<and> has_infix (butlast (tl pat)) s)"

subsection \<open>Notions used in the statements\<close>

definition day_entry :: "schedule \<Rightarrow> datetime \<Rightarrow> bool \<Rightarrow> TimeSlot option \<Rightarrow> DaySchedule" where
  \<comment> \<open>the entry that \<open>update_day_schedule\<close> puts at the date of \<open>dt\<close>, given the slot\<close>
  "day_entry sched dt av slot =
     \<lparr>date = dt, available = av, time_slot = slot,
      booked_jobs = (case sched (strftime_ymd dt) of None \<Rightarrow> [] | Some day \<Rightarrow> booked_jobs day)\<rparr>"

definition week_entry :: "int list \<Rightarrow> TimeSlot \<Rightarrow> date_key \<Rightarrow> DaySchedule" where
  \<comment> \<open>the entry of day \<open>k\<close> in a weekly schedule, as it is read back from the store\<close>
  "week_entry wd slot k =
     \<lparr>date = strptime_ymd k, available = (weekday (strptime_ymd k) \<in> set wd),
      time_slot = (if weekday (strptime_ymd k) \<in> set wd then Some slot else None),
      booked_jobs = []\<rparr>"

definition slot_only_if_available :: "DaySchedule \<Rightarrow> bool" where
  \<comment> \<open>the invariant of the data model: no time slot on a day that is not available\<close>
  "slot_only_if_available day = (available day \<or> time_slot day = None)"

definition schedule_ok :: "schedule \<Rightarrow> bool" where
  "schedule_ok sched = (\<forall>day \<in> ran sched. slot_only_if_available day)"

definition master_score :: "(real \<Rightarrow> nat \<Rightarrow> real) \<Rightarrow> masters \<Rightarrow> datetime \<Rightarrow> int \<Rightarrow> real" where
  \<comment> \<open>the score that \<open>master_scores\<close> gives to a master of the table, under the same
      arithmetic\<close>
  "master_score times10_minus db dt master_id =
     times10_minus
       (rating_or_default (case fetchone_by_id db master_id of None \<Rightarrow> None | Some row \<Rightarrow> rating row))
       (get_master_workload db master_id dt)"

definition intake_match :: "(string \<Rightarrow> string \<Rightarrow> bool) \<Rightarrow> string \<Rightarrow> string \<Rightarrow> master \<Rightarrow> bool" where
  \<comment> \<open>the \<^verbatim>\<open>WHERE\<close> clause of \<open>find_available_master\<close>\<close>
  "intake_match like category cty row =
     (is_active row \<and> terminal_active row \<and> city row = cty \<and>
      like (''%'' @ category @ ''%'') (specializations row))"

subsection \<open>Sample data\<close>

text \<open>
  Monday 2025-11-03 has the ordinal 739558; 09:00, 14:00 and 18:00 are 32400, 50400 and
  64800 seconds after midnight.
\<close>

definition monday_2pm :: datetime where
  "monday_2pm = \<lparr>dt_day = 739558, dt_us = 50400000000\<rparr>"

definition nine_to_six :: TimeSlot where
  "nine_to_six = \<lparr>slot_start = 32400000000, slot_end = 64800000000\<rparr>"

definition new_master :: "int \<Rightarrow> master" where
  \<comment> \<open>a master as registered, before any schedule is stored\<close>
  "new_master i =
     \<lparr>row_id = i, specializations = ''[\"electrical\"]'', city = ''Kaliningrad'',
      rating = Some 5, is_active = True, terminal_active = False,
      schedule_json = None, last_schedule_confirmation = None\<rparr>"

definition working_master :: "int \<Rightarrow> real option \<Rightarrow> int list \<Rightarrow> master" where
  \<comment> \<open>a master who works on that Monday from 09:00 to 18:00, with the given rating and
      the given jobs booked on that day\<close>
  "working_master i r jobs =
     \<lparr>row_id = i, specializations = ''[\"electrical\"]'', city = ''Kaliningrad'',
      rating = r, is_active = True, terminal_active = True,
      schedule_json = Some [739558 \<mapsto> \<lparr>d_date = 739558, d_available = True,
                                        d_time_slot = Some nine_to_six, d_booked_jobs = jobs\<rparr>],
      last_schedule_confirmation = Some \<lparr>dt_day = 739558, dt_us = 7200000000\<rparr>\<rparr>"

section \<open>Auxiliary facts\<close>

subsection \<open>The store\<close>


lemma strftime_strptime: "strftime_ymd (strptime_ymd k) = k"
  by (simp add: strftime_ymd_def strptime_ymd_def)

lemma to_from_dict: "to_dict (from_dict x) = x"
  by (simp add: to_dict_def from_dict_def strftime_strptime)

lemma from_to_dict:
  "from_dict (to_dict day) = day\<lparr>date := \<lparr>dt_day = dt_day (date day), dt_us = 0\<rparr>\<rparr>"
  by (simp add: to_dict_def from_dict_def strftime_ymd_def strptime_ymd_def)

lemma fetchone_set_master_schedule:
  "fetchone_by_id (set_master_schedule db m sched) m' =
     map_option (\<lambda>row. if row_id row = m
                        then row\<lparr>schedule_json := Some (map_option to_dict \<circ> sched)\<rparr>
                        else row) (fetchone_by_id db m')"
  by (induction db) (auto simp: fetchone_by_id_def set_master_schedule_def)

lemma fetchone_row_id: "fetchone_by_id db m = Some row \<Longrightarrow> row_id row = m"
  by (induction db) (auto simp: fetchone_by_id_def split: if_splits)

lemma get_set_same:
  assumes "fetchone_by_id db m \<noteq> None"
  shows "get_master_schedule (set_master_schedule db m sched) m k
           = map_option (\<lambda>day. from_dict (to_dict day)) (sched k)"
proof -
  from assms obtain row where r: "fetchone_by_id db m = Some row" by auto
  then have "row_id row = m" by (rule fetchone_row_id)
  with r show ?thesis
    by (simp add: get_master_schedule_def fetchone_set_master_schedule option.map_comp comp_def)
qed

lemma get_set_other:
  "m' \<noteq> m \<Longrightarrow> get_master_schedule (set_master_schedule db m sched) m' = get_master_schedule db m'"
  by (cases "fetchone_by_id db m'")
     (auto simp: get_master_schedule_def fetchone_set_master_schedule dest: fetchone_row_id)

lemma set_absent:
  "fetchone_by_id db m = None \<Longrightarrow> set_master_schedule db m sched = db"
  by (induction db) (auto simp: fetchone_by_id_def set_master_schedule_def split: if_splits)

lemma get_absent:
  "fetchone_by_id db m = None \<Longrightarrow> get_master_schedule db m = Map.empty"
  by (simp add: get_master_schedule_def)

lemma get_Some_exists:
  "get_master_schedule db m k = Some day \<Longrightarrow> fetchone_by_id db m \<noteq> None"
  by (auto simp: get_master_schedule_def split: option.splits)

lemma get_reload:
  "get_master_schedule db m k = Some day \<Longrightarrow> from_dict (to_dict day) = day"
  by (auto simp: get_master_schedule_def to_from_dict split: option.splits)



lemma day_time_slot_None:
  "\<not> (av \<and> truthy st \<and> truthy en) \<Longrightarrow> day_time_slot f av st en = Inr None"
  by (auto simp: day_time_slot_def)

lemma day_time_slot_Some:
  "a \<noteq> [] \<Longrightarrow> b \<noteq> [] \<Longrightarrow> f a = Some s \<Longrightarrow> f b = Some e \<Longrightarrow>
   day_time_slot f True (Some a) (Some b) = Inr (Some \<lparr>slot_start = s, slot_end = e\<rparr>)"
  by (simp add: day_time_slot_def truthy_def new_TimeSlot_def)

lemma day_time_slot_available:
  "day_time_slot f av st en = Inr (Some slot) \<Longrightarrow> av"
  by (auto simp: day_time_slot_def split: if_splits)

lemma update_day_schedule_eq:
  "update_day_schedule f db m dt av st en =
     (case day_time_slot f av st en of
        Inl err \<Rightarrow> Inl err
      | Inr slot \<Rightarrow>
          Inr (set_master_schedule db m
                 ((get_master_schedule db m)(strftime_ymd dt \<mapsto>
                    day_entry (get_master_schedule db m) dt av slot))))"
  by (simp add: update_day_schedule_def Let_def day_entry_def split: sum.splits)

lemma get_update_day_schedule:
  assumes "fetchone_by_id db m \<noteq> None"
  shows "get_master_schedule
           (set_master_schedule db m
              ((get_master_schedule db m)(strftime_ymd dt \<mapsto>
                 day_entry (get_master_schedule db m) dt av slot))) m
         = (get_master_schedule db m)(strftime_ymd dt \<mapsto>
              \<lparr>date = strptime_ymd (strftime_ymd dt), available = av, time_slot = slot,
               booked_jobs = (case get_master_schedule db m (strftime_ymd dt) of
                                None \<Rightarrow> [] | Some day \<Rightarrow> booked_jobs day)\<rparr>)"
proof (rule ext)
  fix k
  have other: "map_option (\<lambda>day. from_dict (to_dict day)) (get_master_schedule db m k)
                 = get_master_schedule db m k"
    by (cases "get_master_schedule db m k") (auto dest: get_reload)
  show "get_master_schedule
           (set_master_schedule db m
              ((get_master_schedule db m)(strftime_ymd dt \<mapsto>
                 day_entry (get_master_schedule db m) dt av slot))) m k
         = ((get_master_schedule db m)(strftime_ymd dt \<mapsto>
              \<lparr>date = strptime_ymd (strftime_ymd dt), available = av, time_slot = slot,
               booked_jobs = (case get_master_schedule db m (strftime_ymd dt) of
                                None \<Rightarrow> [] | Some day \<Rightarrow> booked_jobs day)\<rparr>)) k"
    using other
    by (simp add: get_set_same[OF assms] day_entry_def from_dict_def to_dict_def)
qed

lemma weekly_loop_Inr:
  assumes "f a = Some s" "f b = Some e"
  shows "\<exists>sched'. weekly_loop f today a b wd is sched = Inr sched' \<and>
           (\<forall>k. sched' k =
              (if k \<in> (\<lambda>i. today + int i) ` set is
               then Some \<lparr>date = \<lparr>dt_day = k, dt_us = 0\<rparr>,
                          available = ((k + 6) mod 7 \<in> set wd),
                          time_slot = (if (k + 6) mod 7 \<in> set wd
                                       then Some \<lparr>slot_start = s, slot_end = e\<rparr> else None),
                          booked_jobs = []\<rparr>
               else sched k))"
  using assms
proof (induction "is" arbitrary: sched)
  case Nil
  then show ?case by simp
next
  case (Cons i rest)
  let ?dt = "\<lparr>dt_day = today + int i, dt_us = 0\<rparr>"
  let ?av = "(today + int i + 6) mod 7 \<in> set wd"
  let ?entry = "\<lparr>date = ?dt, available = ?av,
                 time_slot = (if ?av then Some \<lparr>slot_start = s, slot_end = e\<rparr> else None),
                 booked_jobs = []\<rparr>"
  have step: "weekly_loop f today a b wd (i # rest) sched =
              weekly_loop f today a b wd rest (sched(today + int i \<mapsto> ?entry))"
    using Cons.prems
    by (simp add: Let_def new_TimeSlot_def weekday_def strftime_ymd_def)
  from Cons.IH[OF Cons.prems, of "sched(today + int i \<mapsto> ?entry)"]
  obtain sched' where s': "weekly_loop f today a b wd rest (sched(today + int i \<mapsto> ?entry)) = Inr sched'"
    and k: "\<And>k. sched' k =
              (if k \<in> (\<lambda>i. today + int i) ` set rest
               then Some \<lparr>date = \<lparr>dt_day = k, dt_us = 0\<rparr>,
                          available = ((k + 6) mod 7 \<in> set wd),
                          time_slot = (if (k + 6) mod 7 \<in> set wd
                                       then Some \<lparr>slot_start = s, slot_end = e\<rparr> else None),
                          booked_jobs = []\<rparr>
               else (sched(today + int i \<mapsto> ?entry)) k)"
    by blast
  show ?case
    unfolding step s' using k by auto
qed

lemma window: "(\<lambda>i. today + int i) ` set [0..<7] = {today .. today + 6}"
proof -
  have "(\<lambda>i. today + int i) ` {0..<7} = {today .. today + 6}"
  proof (rule set_eqI)
    fix k
    show "k \<in> (\<lambda>i. today + int i) ` {0..<7} \<longleftrightarrow> k \<in> {today .. today + 6}"
    proof
      assume "k \<in> (\<lambda>i. today + int i) ` {0..<7}"
      then show "k \<in> {today .. today + 6}" by auto
    next
      assume "k \<in> {today .. today + 6}"
      then have "k = today + int (nat (k - today))" "nat (k - today) \<in> {0..<7}" by auto
      then show "k \<in> (\<lambda>i. today + int i) ` {0..<7}" by (rule image_eqI)
    qed
  qed
  then show ?thesis by simp
qed

subsection \<open>Stable sorting\<close>


lemma insort_key_ne: "insort_key f x ys \<noteq> []"
  by (cases ys) auto

lemma last_insort_key:
  "last (insort_key f x ys) = (if \<forall>y\<in>set ys. f y < f x then x else last ys)"
proof (induction ys)
  case Nil
  then show ?case by simp
next
  case (Cons y ys)
  show ?case
  proof (cases "f x \<le> f y")
    case True
    then show ?thesis by auto
  next
    case False
    then have "last (insort_key f x (y # ys)) = last (insort_key f x ys)"
      by (simp add: insort_key_ne)
    with False Cons.IH show ?thesis by (cases ys) auto
  qed
qed

lemma last_sort_key:
  assumes "xs \<noteq> []"
  shows "\<exists>pre post. xs = pre @ last (sort_key f xs) # post \<and>
           (\<forall>y\<in>set pre. f y \<le> f (last (sort_key f xs))) \<and>
           (\<forall>y\<in>set post. f y < f (last (sort_key f xs)))"
  using assms
proof (induction xs)
  case Nil
  then show ?case by simp
next
  case (Cons x xs)
  show ?case
  proof (cases "\<forall>y\<in>set xs. f y < f x")
    case True
    then have "last (sort_key f (x # xs)) = x"
      by (simp add: last_insort_key)
    with True have "x # xs = [] @ last (sort_key f (x # xs)) # xs \<and>
           (\<forall>y\<in>set []. f y \<le> f (last (sort_key f (x # xs)))) \<and>
           (\<forall>y\<in>set xs. f y < f (last (sort_key f (x # xs))))" by simp
    then show ?thesis by blast
  next
    case False
    then have ne: "xs \<noteq> []" by auto
    from False have l: "last (sort_key f (x # xs)) = last (sort_key f xs)"
      by (auto simp: last_insort_key)
    from Cons.IH[OF ne] obtain pre post where
      d: "xs = pre @ last (sort_key f xs) # post"
      and p: "\<forall>y\<in>set pre. f y \<le> f (last (sort_key f xs))"
      and q: "\<forall>y\<in>set post. f y < f (last (sort_key f xs))" by blast
    from False obtain y where y: "y \<in> set xs" "f x \<le> f y" by (auto simp: not_less)
    from y(1) d have "y \<in> set pre \<or> y = last (sort_key f xs) \<or> y \<in> set post"
      by (metis Un_iff set_append set_ConsD)
    with p q have "f y \<le> f (last (sort_key f xs))" by auto
    with y(2) have "f x \<le> f (last (sort_key f xs))" by simp
    with d p q l have "x # xs = (x # pre) @ last (sort_key f (x # xs)) # post \<and>
           (\<forall>y\<in>set (x # pre). f y \<le> f (last (sort_key f (x # xs)))) \<and>
           (\<forall>y\<in>set post. f y < f (last (sort_key f (x # xs))))" by simp
    then show ?thesis by blast
  qed
qed

lemma sort_key_desc_Nil: "sort_key_desc f xs = [] \<longleftrightarrow> xs = []"
proof -
  have "length (sort_key_desc f xs) = length xs"
    by (simp add: sort_key_desc_def)
  then show ?thesis by (metis length_0_conv)
qed

lemma hd_sort_key_desc:
  assumes "xs \<noteq> []"
  shows "\<exists>pre post. xs = pre @ hd (sort_key_desc f xs) # post \<and>
           (\<forall>y\<in>set pre. f y < f (hd (sort_key_desc f xs))) \<and>
           (\<forall>y\<in>set post. f y \<le> f (hd (sort_key_desc f xs)))"
proof -
  let ?r = "last (sort_key f (rev xs))"
  have ne: "sort_key f (rev xs) \<noteq> []"
    using assms by (metis length_0_conv length_sort length_rev)
  have h: "hd (sort_key_desc f xs) = ?r"
    using ne by (simp add: sort_key_desc_def hd_rev)
  from assms have "rev xs \<noteq> []" by simp
  from last_sort_key[OF this, of f] obtain pre post where
    d: "rev xs = pre @ ?r # post"
    and p: "\<forall>y\<in>set pre. f y \<le> f ?r"
    and q: "\<forall>y\<in>set post. f y < f ?r" by blast
  from d have "rev (rev xs) = rev (pre @ ?r # post)" by simp
  then have "xs = rev post @ ?r # rev pre" by simp
  with p q h have "xs = rev post @ hd (sort_key_desc f xs) # rev pre \<and>
           (\<forall>y\<in>set (rev post). f y < f (hd (sort_key_desc f xs))) \<and>
           (\<forall>y\<in>set (rev pre). f y \<le> f (hd (sort_key_desc f xs)))" by simp
  then show ?thesis by blast
qed

lemma insort_key_map_gen:
  "insort_key f (g x) (map g ys) = map g (insort_key (\<lambda>z. f (g z)) x ys)"
  by (induction ys) simp_all

lemma sort_key_map_gen:
  "sort_key f (map g xs) = map g (sort_key (\<lambda>z. f (g z)) xs)"
  by (induction xs) (simp_all add: insort_key_map_gen)

lemma sort_key_desc_map_gen:
  "sort_key_desc f (map g xs) = map g (sort_key_desc (\<lambda>z. f (g z)) xs)"
  by (simp add: sort_key_desc_def rev_map sort_key_map_gen)

subsection \<open>Workload, booking and the sample rows\<close>

lemma get_master_workload_length:
  "get_master_workload db m dt =
     (case get_master_schedule db m (strftime_ymd dt) of None \<Rightarrow> 0 | Some day \<Rightarrow> length (booked_jobs day))"
  by (simp add: get_master_workload_def Let_def)

lemma book_get:
  assumes "get_master_schedule db m (strftime_ymd dt) = Some day"
  shows "get_master_schedule (book_master_for_job db m j dt) m k =
           (if k = strftime_ymd dt then Some (day\<lparr>booked_jobs := booked_jobs day @ [j]\<rparr>)
            else get_master_schedule db m k)"
proof -
  have ex: "fetchone_by_id db m \<noteq> None" using assms by (rule get_Some_exists)
  have r: "from_dict (to_dict day) = day" using assms by (rule get_reload)
  have r': "from_dict (to_dict (day\<lparr>booked_jobs := booked_jobs day @ [j]\<rparr>)) = day\<lparr>booked_jobs := booked_jobs day @ [j]\<rparr>"
    using arg_cong[OF r, of date] by (simp add: from_dict_def to_dict_def)
  have other: "map_option (\<lambda>day. from_dict (to_dict day)) (get_master_schedule db m k) = get_master_schedule db m k"
    by (cases "get_master_schedule db m k") (auto dest: get_reload)
  show ?thesis
    using assms r' other
    by (simp add: book_master_for_job_def Let_def get_set_same[OF ex])
qed

lemma sched_working:
  "get_master_schedule [working_master i r jobs] i 739558 =
     Some \<lparr>date = \<lparr>dt_day = 739558, dt_us = 0\<rparr>, available = True,
           time_slot = Some nine_to_six, booked_jobs = jobs\<rparr>"
  by (simp add: get_master_schedule_def fetchone_by_id_def working_master_def from_dict_def
        strptime_ymd_def)

subsection \<open>The invariant of the stored days\<close>

lemma schedule_ok_iff:
  "schedule_ok sched \<longleftrightarrow> (\<forall>k day. sched k = Some day \<longrightarrow> slot_only_if_available day)"
  by (auto simp: schedule_ok_def ran_def)

lemma schedule_ok_empty: "schedule_ok Map.empty"
  by (simp add: schedule_ok_iff)

lemma schedule_ok_upd:
  "schedule_ok sched \<Longrightarrow> slot_only_if_available day \<Longrightarrow> schedule_ok (sched(k \<mapsto> day))"
  by (simp add: schedule_ok_iff)

lemma slot_only_if_available_reload:
  "slot_only_if_available (from_dict (to_dict day)) = slot_only_if_available day"
  by (simp add: slot_only_if_available_def from_dict_def to_dict_def)

lemma schedule_ok_set:
  assumes "schedule_ok sched" and "schedule_ok (get_master_schedule db m')"
  shows "schedule_ok (get_master_schedule (set_master_schedule db m sched) m')"
proof (cases "m' = m")
  case False
  then show ?thesis using assms(2) by (simp add: get_set_other)
next
  case True
  show ?thesis
  proof (cases "fetchone_by_id db m = None")
    case True
    with assms(2) \<open>m' = m\<close> show ?thesis by (simp add: set_absent)
  next
    case False
    have "slot_only_if_available day"
      if "get_master_schedule (set_master_schedule db m sched) m k = Some day" for k day
    proof -
      from that obtain d0 where "sched k = Some d0" "day = from_dict (to_dict d0)"
        by (auto simp: get_set_same[OF False])
      with assms(1) show ?thesis
        by (auto simp: schedule_ok_iff slot_only_if_available_reload)
    qed
    with \<open>m' = m\<close> show ?thesis by (simp add: schedule_ok_iff)
  qed
qed

lemma weekly_loop_ok:
  assumes "schedule_ok sched"
    and "weekly_loop f today a b wd is sched = Inr sched'"
  shows "schedule_ok sched'"
  using assms
proof (induction "is" arbitrary: sched)
  case Nil
  then show ?case by simp
next
  case (Cons i rest)
  let ?dt = "\<lparr>dt_day = today + int i, dt_us = 0\<rparr>"
  let ?av = "weekday ?dt \<in> set wd"
  from Cons.prems(2) obtain slot where
    slot: "(if ?av then map_sum id Some (new_TimeSlot f a b) else Inr None) = Inr slot"
    and rest: "weekly_loop f today a b wd rest
                 (sched(strftime_ymd ?dt \<mapsto>
                    \<lparr>date = ?dt, available = ?av, time_slot = slot, booked_jobs = []\<rparr>)) = Inr sched'"
    by (auto simp: Let_def split: sum.splits)
  from slot have "?av \<or> slot = None" by (auto split: if_splits)
  then have "slot_only_if_available \<lparr>date = ?dt, available = ?av, time_slot = slot, booked_jobs = []\<rparr>"
    by (simp add: slot_only_if_available_def)
  with Cons.prems(1) have "schedule_ok (sched(strftime_ymd ?dt \<mapsto>
                    \<lparr>date = ?dt, available = ?av, time_slot = slot, booked_jobs = []\<rparr>))"
    by (rule schedule_ok_upd)
  from Cons.IH[OF this rest] show ?case .
qed

lemma create_weekly_schedule_Inr:
  assumes "create_weekly_schedule f db now m a b wd = Inr db'"
  shows "\<exists>sched. weekly_loop f (dt_day now) a b
                   (case wd of None \<Rightarrow> [0, 1, 2, 3, 4] | Some l \<Rightarrow> l) [0..<7] Map.empty = Inr sched \<and>
                 db' = set_master_schedule db m sched"
  using assms by (auto simp: create_weekly_schedule_def Let_def split: sum.splits)

lemma day_entry_ok:
  "av \<or> slot = None \<Longrightarrow> slot_only_if_available (day_entry sched dt av slot)"
  by (simp add: slot_only_if_available_def day_entry_def)

lemma update_ok:
  assumes "update_day_schedule f db m dt av st en = Inr db'"
    and "schedule_ok (get_master_schedule db m')"
  shows "schedule_ok (get_master_schedule db' m')"
proof -
  from assms(1) obtain slot where slot: "day_time_slot f av st en = Inr slot"
    and db': "db' = set_master_schedule db m
                ((get_master_schedule db m)(strftime_ymd dt \<mapsto> day_entry (get_master_schedule db m) dt av slot))"
    by (auto simp: update_day_schedule_eq split: sum.splits)
  have "av \<or> slot = None"
    using slot by (cases slot) (auto dest: day_time_slot_available)
  then have e: "slot_only_if_available (day_entry (get_master_schedule db m) dt av slot)"
    by (rule day_entry_ok)
  show ?thesis
  proof (cases "m' = m")
    case True
    with assms(2) e have "schedule_ok ((get_master_schedule db m)(strftime_ymd dt \<mapsto> day_entry (get_master_schedule db m) dt av slot))"
      by (simp add: schedule_ok_upd)
    then show ?thesis unfolding db' using assms(2) by (rule schedule_ok_set)
  next
    case False
    then show ?thesis unfolding db' using assms(2) by (simp add: get_set_other)
  qed
qed

lemma create_ok:
  assumes "create_weekly_schedule f db now m a b wd = Inr db'"
    and "schedule_ok (get_master_schedule db m')"
  shows "schedule_ok (get_master_schedule db' m')"
proof -
  from create_weekly_schedule_Inr[OF assms(1)] obtain sched where
    w: "weekly_loop f (dt_day now) a b
          (case wd of None \<Rightarrow> [0, 1, 2, 3, 4] | Some l \<Rightarrow> l) [0..<7] Map.empty = Inr sched"
    and db': "db' = set_master_schedule db m sched" by blast
  have "schedule_ok sched" using schedule_ok_empty w by (rule weekly_loop_ok)
  then show ?thesis unfolding db' using assms(2) by (rule schedule_ok_set)
qed

lemma book_ok:
  assumes "schedule_ok (get_master_schedule db m')"
  shows "schedule_ok (get_master_schedule (book_master_for_job db m j dt) m')"
proof (cases "get_master_schedule db m (strftime_ymd dt)")
  case None
  then show ?thesis using assms by (simp add: book_master_for_job_def Let_def)
next
  case (Some day)
  show ?thesis
  proof (cases "m' = m")
    case False
    then show ?thesis using assms Some
      by (simp add: book_master_for_job_def Let_def get_set_other)
  next
    case True
    from assms True Some have "slot_only_if_available day" by (auto simp: schedule_ok_iff)
    then have "slot_only_if_available (day\<lparr>booked_jobs := booked_jobs day @ [j]\<rparr>)"
      by (simp add: slot_only_if_available_def)
    with assms True show ?thesis
      by (auto simp: schedule_ok_iff book_get[OF Some] split: if_splits)
  qed
qed

subsection \<open>Facts about the sample data\<close>

lemma fetchone_working: "fetchone_by_id [working_master i r jobs] i \<noteq> None"
  by (simp add: fetchone_by_id_def working_master_def)

lemma fetchone_new: "fetchone_by_id [new_master i] i \<noteq> None"
  by (simp add: fetchone_by_id_def new_master_def)

lemma sched_new: "get_master_schedule [new_master i] i = Map.empty"
  by (simp add: get_master_schedule_def fetchone_by_id_def new_master_def)

lemma key_monday: "strftime_ymd monday_2pm = 739558"
  by (simp add: strftime_ymd_def monday_2pm_def)

lemma hhmm_0900: "fromisoformat_hhmm ''09:00'' = Some 32400000000"
  by (simp add: digit_val_def)

lemma hhmm_1800: "fromisoformat_hhmm ''18:00'' = Some 64800000000"
  by (simp add: digit_val_def)

subsection \<open>The weekly schedule as it is read back\<close>

lemma week_entry_eq:
  "week_entry wd \<lparr>slot_start = s, slot_end = e\<rparr> k =
     \<lparr>date = \<lparr>dt_day = k, dt_us = 0\<rparr>, available = ((k + 6) mod 7 \<in> set wd),
      time_slot = (if (k + 6) mod 7 \<in> set wd then Some \<lparr>slot_start = s, slot_end = e\<rparr> else None),
      booked_jobs = []\<rparr>"
  by (simp add: week_entry_def strptime_ymd_def weekday_def)

lemma week_entry_reload: "from_dict (to_dict (week_entry wd slot k)) = week_entry wd slot k"
  by (simp add: week_entry_def from_dict_def to_dict_def strftime_strptime)

subsection \<open>The two selections\<close>

lemma fetchone_member:
  "m \<in> row_id ` set db \<Longrightarrow> fetchone_by_id db m \<noteq> None"
  by (auto simp: fetchone_by_id_def find_None_iff)

lemma get_available_masters_subset:
  "set (get_available_masters like db sp cty dt ct) \<subseteq> row_id ` set db"
  by (auto simp: get_available_masters_def Let_def)

lemma master_scores_Inr:
  assumes "set ms \<subseteq> row_id ` set db"
  shows "master_scores ar db dt ms = Inr (map (\<lambda>m. (m, master_score ar db dt m)) ms)"
  using assms
proof (induction ms)
  case Nil
  then show ?case by simp
next
  case (Cons m ms)
  from Cons.prems have "fetchone_by_id db m \<noteq> None" by (simp add: fetchone_member)
  then obtain row where r: "fetchone_by_id db m = Some row" by auto
  from Cons.prems have "set ms \<subseteq> row_id ` set db" by simp
  from Cons.IH[OF this] r show ?case
    by (simp add: Let_def master_score_def)
qed

lemma find_best_available_master_eq:
  "find_best_available_master like ar db sp cty dt ct =
     (if get_available_masters like db sp cty dt ct = [] then Inr None
      else Inr (Some (hd (sort_key_desc (master_score ar db dt)
                            (get_available_masters like db sp cty dt ct)))))"
proof (cases "get_available_masters like db sp cty dt ct = []")
  case True
  then show ?thesis by (simp add: find_best_available_master_def)
next
  case False
  let ?c = "get_available_masters like db sp cty dt ct"
  have s: "master_scores ar db dt ?c = Inr (map (\<lambda>m. (m, master_score ar db dt m)) ?c)"
    by (rule master_scores_Inr) (rule get_available_masters_subset)
  have so: "sort_key_desc snd (map (\<lambda>m. (m, master_score ar db dt m)) ?c)
              = map (\<lambda>m. (m, master_score ar db dt m)) (sort_key_desc (master_score ar db dt) ?c)"
    by (simp add: sort_key_desc_map_gen)
  obtain h t where ht: "sort_key_desc (master_score ar db dt) ?c = h # t"
    using False by (cases "sort_key_desc (master_score ar db dt) ?c") (simp_all add: sort_key_desc_Nil)
  show ?thesis
    using False by (simp add: find_best_available_master_def Let_def s so ht)
qed

lemma sorted_get_available_masters:
  assumes "sorted (map row_id db)"
  shows "sorted (get_available_masters like db sp cty dt ct)"
proof -
  have "sorted (map row_id (filter P db))" for P
    using assms by (rule sorted_filter)
  then show ?thesis
    by (simp add: get_available_masters_def Let_def sorted_wrt_filter)
qed

lemma find_best_available_master_first_max:
  "(get_available_masters like db sp cty dt ct = [] \<longrightarrow>
      find_best_available_master like ar db sp cty dt ct = Inr None) \<and>
   (get_available_masters like db sp cty dt ct \<noteq> [] \<longrightarrow>
      (\<exists>m pre post.
         find_best_available_master like ar db sp cty dt ct = Inr (Some m) \<and>
         get_available_masters like db sp cty dt ct = pre @ m # post \<and>
         (\<forall>m' \<in> set pre. master_score ar db dt m' < master_score ar db dt m) \<and>
         (\<forall>m' \<in> set post. master_score ar db dt m' \<le> master_score ar db dt m) \<and>
         (sorted (map row_id db) \<longrightarrow>
            (\<forall>m' \<in> set (get_available_masters like db sp cty dt ct).
               master_score ar db dt m' = master_score ar db dt m \<longrightarrow> m \<le> m'))))"
proof (intro conjI impI)
  assume "get_available_masters like db sp cty dt ct = []"
  then show "find_best_available_master like ar db sp cty dt ct = Inr None"
    by (simp add: find_best_available_master_eq)
next
  let ?c = "get_available_masters like db sp cty dt ct"
  let ?sc = "master_score ar db dt"
  let ?m = "hd (sort_key_desc ?sc ?c)"
  assume ne: "?c \<noteq> []"
  then have r: "find_best_available_master like ar db sp cty dt ct = Inr (Some ?m)"
    by (simp add: find_best_available_master_eq)
  from hd_sort_key_desc[OF ne, of ?sc] obtain pre post where
    d: "?c = pre @ ?m # post"
    and p: "\<forall>m' \<in> set pre. ?sc m' < ?sc ?m"
    and q: "\<forall>m' \<in> set post. ?sc m' \<le> ?sc ?m" by blast
  have t: "sorted (map row_id db) \<longrightarrow> (\<forall>m' \<in> set ?c. ?sc m' = ?sc ?m \<longrightarrow> ?m \<le> m')"
  proof (intro impI ballI)
    fix m'
    assume srt: "sorted (map row_id db)" and mem: "m' \<in> set ?c" and eq: "?sc m' = ?sc ?m"
    have "sorted ?c" using srt by (rule sorted_get_available_masters)
    then have "sorted (pre @ ?m # post)" using d by simp
    then have after: "\<forall>y \<in> set post. ?m \<le> y"
      by (simp add: sorted_append)
    from mem have "m' \<in> set (pre @ ?m # post)" using d by simp
    then have "m' \<in> set pre \<or> m' = ?m \<or> m' \<in> set post" by auto
    with p eq after show "?m \<le> m'" by auto
  qed
  show "\<exists>m pre post.
         find_best_available_master like ar db sp cty dt ct = Inr (Some m) \<and>
         ?c = pre @ m # post \<and>
         (\<forall>m' \<in> set pre. ?sc m' < ?sc m) \<and>
         (\<forall>m' \<in> set post. ?sc m' \<le> ?sc m) \<and>
         (sorted (map row_id db) \<longrightarrow> (\<forall>m' \<in> set ?c. ?sc m' = ?sc m \<longrightarrow> m \<le> m'))"
    using r d p q t by blast
qed

lemma find_available_master_alt:
  "find_available_master like db category cty =
     (case sort_key_desc rating (filter (intake_match like category cty) db) of
        [] \<Rightarrow> None
      | result # _ \<Rightarrow> Some (row_id result))"
  unfolding find_available_master_def Let_def intake_match_def[abs_def] by (rule refl)

lemma find_available_master_eq:
  "find_available_master like db category cty =
     (if filter (intake_match like category cty) db = [] then None
      else Some (row_id (hd (sort_key_desc rating (filter (intake_match like category cty) db)))))"
proof -
  let ?rows = "filter (intake_match like category cty) db"
  show ?thesis
  proof (cases "?rows = []")
    case True
    then have "sort_key_desc rating ?rows = []" by (simp add: sort_key_desc_Nil)
    with True show ?thesis
      by (simp add: find_available_master_alt)
  next
    case False
    then obtain h t where ht: "sort_key_desc rating ?rows = h # t"
      by (cases "sort_key_desc rating ?rows") (simp_all add: sort_key_desc_Nil)
    with False show ?thesis
      by (simp add: find_available_master_alt)
  qed
qed

lemma like_electrical:
  "like_contains (''%'' @ ''electrical'' @ ''%'') (specializations (working_master i r js))"
  "like_contains (''%'' @ ''electrical'' @ ''%'') (specializations (new_master i))"
  by (simp_all add: like_contains_def working_master_def new_master_def)

section \<open>The claims\<close>

subsection \<open>Availability queries\<close>

text \<open>
  C5. \<open>is_master_available\<close> answers false when the record of the master has no entry for
  the date. With a time \<open>t\<close> it answers true exactly when the entry is available and has a
  time slot with \<open>start \<le> t \<le> end\<close>, both ends included; without a time it answers the
  \<open>available\<close> flag of the entry.
\<close>

theorem is_master_available_spec:
  "(get_master_schedule db m (strftime_ymd dt) = None \<longrightarrow> \<not> is_master_available db m dt ct) \<and>
   (\<forall>day. get_master_schedule db m (strftime_ymd dt) = Some day \<longrightarrow>
      (is_master_available db m dt (Some t) \<longleftrightarrow>
         available day \<and> (\<exists>slot. time_slot day = Some slot \<and> slot_start slot \<le> t \<and> t \<le> slot_end slot)) \<and>
      (is_master_available db m dt None \<longleftrightarrow> available day))"
  by (auto simp: is_master_available_def Let_def is_available_at_def contains_def
           split: option.splits)

theorem is_master_available_spec_witness:
  "is_master_available [working_master 1 (Some 5) []] 1 monday_2pm (Some 32400000000) \<and>
   is_master_available [working_master 1 (Some 5) []] 1 monday_2pm (Some 64800000000) \<and>
   \<not> is_master_available [working_master 1 (Some 5) []] 1 monday_2pm (Some 64800000001) \<and>
   is_master_available [working_master 1 (Some 5) []] 1 monday_2pm None \<and>
   \<not> is_master_available [new_master 1] 1 monday_2pm None"
proof -
  have key: "strftime_ymd monday_2pm = 739558"
    by (simp add: strftime_ymd_def monday_2pm_def)
  have none: "get_master_schedule [new_master 1] 1 (strftime_ymd monday_2pm) = None"
    by (simp add: get_master_schedule_def fetchone_by_id_def new_master_def)
  have some: "get_master_schedule [working_master 1 (Some 5) []] 1 (strftime_ymd monday_2pm) =
     Some \<lparr>date = \<lparr>dt_day = 739558, dt_us = 0\<rparr>, available = True,
           time_slot = Some nine_to_six, booked_jobs = []\<rparr>"
    unfolding key by (rule sched_working)
  show ?thesis
    using is_master_available_spec[of "[working_master 1 (Some 5) []]" 1 monday_2pm None 32400000000]
          is_master_available_spec[of "[working_master 1 (Some 5) []]" 1 monday_2pm None 64800000000]
          is_master_available_spec[of "[working_master 1 (Some 5) []]" 1 monday_2pm None 64800000001]
          is_master_available_spec[of "[new_master 1]" 1 monday_2pm None 0]
          none some
    by (simp add: nine_to_six_def)
qed

text \<open>
  C9. \<open>needs_schedule_confirmation\<close> answers true when no confirmation is stored (no row, or
  a \<^verbatim>\<open>NULL\<close> column), and otherwise true exactly when more than 12 hours (43200000000
  microseconds) lie between the stored confirmation and now; at exactly 12 hours it answers
  false.
\<close>

theorem needs_schedule_confirmation_spec:
  "(fetchone_by_id db m = None \<longrightarrow> needs_schedule_confirmation db now m) \<and>
   (\<forall>row. fetchone_by_id db m = Some row \<longrightarrow>
      (last_schedule_confirmation row = None \<longrightarrow> needs_schedule_confirmation db now m) \<and>
      (\<forall>last. last_schedule_confirmation row = Some last \<longrightarrow>
         (needs_schedule_confirmation db now m \<longleftrightarrow> 43200000000 < timedelta_us now last) \<and>
         (timedelta_us now last = 43200000000 \<longrightarrow> \<not> needs_schedule_confirmation db now m)))"
  by (auto simp: needs_schedule_confirmation_def timedelta_hours_def)

theorem needs_schedule_confirmation_spec_witness:
  "needs_schedule_confirmation [new_master 1] monday_2pm 1 \<and>
   needs_schedule_confirmation [new_master 1] monday_2pm 2 \<and>
   \<not> needs_schedule_confirmation [working_master 1 (Some 5) []] monday_2pm 1 \<and>
   needs_schedule_confirmation [working_master 1 (Some 5) []] \<lparr>dt_day = 739558, dt_us = 50400000001\<rparr> 1 \<and>
   needs_schedule_confirmation [working_master 1 (Some 5) []] \<lparr>dt_day = 739559, dt_us = 0\<rparr> 1"
proof -
  have a: "fetchone_by_id [new_master 1] 2 = None"
    by (simp add: fetchone_by_id_def new_master_def)
  have b: "fetchone_by_id [new_master 1] 1 = Some (new_master 1)"
    "last_schedule_confirmation (new_master 1) = None"
    by (simp_all add: fetchone_by_id_def new_master_def)
  have c: "fetchone_by_id [working_master 1 (Some 5) []] 1 = Some (working_master 1 (Some 5) [])"
    "last_schedule_confirmation (working_master 1 (Some 5) []) = Some \<lparr>dt_day = 739558, dt_us = 7200000000\<rparr>"
    by (simp_all add: fetchone_by_id_def working_master_def)
  have d: "timedelta_us monday_2pm \<lparr>dt_day = 739558, dt_us = 7200000000\<rparr> = 43200000000"
    "timedelta_us \<lparr>dt_day = 739558, dt_us = 50400000001\<rparr> \<lparr>dt_day = 739558, dt_us = 7200000000\<rparr> = 43200000001"
    "timedelta_us \<lparr>dt_day = 739559, dt_us = 0\<rparr> \<lparr>dt_day = 739558, dt_us = 7200000000\<rparr> = 79200000000"
    by (simp_all add: timedelta_us_def monday_2pm_def us_per_day_def)
  show ?thesis
    using needs_schedule_confirmation_spec[of "[new_master 1]" 1 monday_2pm]
          needs_schedule_confirmation_spec[of "[new_master 1]" 2 monday_2pm]
          needs_schedule_confirmation_spec[of "[working_master 1 (Some 5) []]" 1 monday_2pm]
          needs_schedule_confirmation_spec[of "[working_master 1 (Some 5) []]" 1 "\<lparr>dt_day = 739558, dt_us = 50400000001\<rparr>"]
          needs_schedule_confirmation_spec[of "[working_master 1 (Some 5) []]" 1 "\<lparr>dt_day = 739559, dt_us = 0\<rparr>"]
          a b c d
    by simp
qed

subsection \<open>Booking\<close>

text \<open>
  C2. When the record of the master has no entry for the date, \<open>book_master_for_job\<close> leaves
  the table as it is and the workload of that date stays 0. When there is an entry, the job
  is appended at the end of its \<open>booked_jobs\<close> and the workload of that date grows by
  exactly 1, whatever the job and however many jobs are booked already.
\<close>

theorem book_master_for_job_spec:
  "(get_master_schedule db m (strftime_ymd dt) = None \<longrightarrow>
      book_master_for_job db m j dt = db \<and>
      get_master_workload (book_master_for_job db m j dt) m dt = 0) \<and>
   (\<forall>day. get_master_schedule db m (strftime_ymd dt) = Some day \<longrightarrow>
      get_master_schedule (book_master_for_job db m j dt) m (strftime_ymd dt)
        = Some (day\<lparr>booked_jobs := booked_jobs day @ [j]\<rparr>) \<and>
      get_master_workload (book_master_for_job db m j dt) m dt
        = get_master_workload db m dt + 1)"
proof (intro conjI impI allI)
  assume n: "get_master_schedule db m (strftime_ymd dt) = None"
  then show "book_master_for_job db m j dt = db"
    by (simp add: book_master_for_job_def Let_def)
  with n show "get_master_workload (book_master_for_job db m j dt) m dt = 0"
    by (simp add: get_master_workload_length)
next
  fix day
  assume s: "get_master_schedule db m (strftime_ymd dt) = Some day"
  show "get_master_schedule (book_master_for_job db m j dt) m (strftime_ymd dt)
        = Some (day\<lparr>booked_jobs := booked_jobs day @ [j]\<rparr>)"
    by (simp add: book_get[OF s])
  then show "get_master_workload (book_master_for_job db m j dt) m dt
        = get_master_workload db m dt + 1"
    using s by (simp add: get_master_workload_length)
qed

theorem book_master_for_job_spec_witness:
  "book_master_for_job [new_master 1] 1 7 monday_2pm = [new_master 1] \<and>
   get_master_workload (book_master_for_job [new_master 1] 1 7 monday_2pm) 1 monday_2pm = 0 \<and>
   get_master_workload [working_master 1 (Some 5) [7]] 1 monday_2pm = 1 \<and>
   get_master_workload (book_master_for_job [working_master 1 (Some 5) [7]] 1 7 monday_2pm) 1 monday_2pm = 2 \<and>
   get_master_schedule (book_master_for_job [working_master 1 (Some 5) [7]] 1 7 monday_2pm) 1 739558
     = Some \<lparr>date = \<lparr>dt_day = 739558, dt_us = 0\<rparr>, available = True,
           time_slot = Some nine_to_six, booked_jobs = [7, 7]\<rparr>"
proof -
  have key: "strftime_ymd monday_2pm = 739558"
    by (simp add: strftime_ymd_def monday_2pm_def)
  have none: "get_master_schedule [new_master 1] 1 (strftime_ymd monday_2pm) = None"
    by (simp add: get_master_schedule_def fetchone_by_id_def new_master_def)
  have some: "get_master_schedule [working_master 1 (Some 5) [7]] 1 (strftime_ymd monday_2pm) =
     Some \<lparr>date = \<lparr>dt_day = 739558, dt_us = 0\<rparr>, available = True,
           time_slot = Some nine_to_six, booked_jobs = [7]\<rparr>"
    unfolding key by (rule sched_working)
  have w: "get_master_workload [working_master 1 (Some 5) [7]] 1 monday_2pm = 1"
    using some by (simp add: get_master_workload_length)
  have w0: "get_master_workload [new_master 1] 1 monday_2pm = 0"
    using none by (simp add: get_master_workload_length)
  show ?thesis
    using book_master_for_job_spec[of "[new_master 1]" 1 monday_2pm 7]
          book_master_for_job_spec[of "[working_master 1 (Some 5) [7]]" 1 monday_2pm 7]
          none some w w0 key
    by simp
qed

subsection \<open>Updating one day\<close>

text \<open>
  C6. For a master of the table, a successful \<open>update_day_schedule\<close> changes the entry of
  that date only: every other date of the master and every other master keep their entries.
  The new entry carries the \<open>booked_jobs\<close> that were stored for the date, or the empty list
  when there was no entry; a further \<open>update_day_schedule\<close> for the date, with any arguments,
  still leaves these jobs in place, and repeating the same call changes nothing.
\<close>

theorem update_day_schedule_frame:
  assumes ex: "fetchone_by_id db m \<noteq> None"
    and upd: "update_day_schedule f db m dt av st en = Inr db'"
  shows "(\<forall>k. k \<noteq> strftime_ymd dt \<longrightarrow> get_master_schedule db' m k = get_master_schedule db m k) \<and>
         (\<forall>m'. m' \<noteq> m \<longrightarrow> get_master_schedule db' m' = get_master_schedule db m') \<and>
         (\<exists>day. get_master_schedule db' m (strftime_ymd dt) = Some day \<and>
                available day = av \<and>
                booked_jobs day = (case get_master_schedule db m (strftime_ymd dt) of
                                     None \<Rightarrow> [] | Some old \<Rightarrow> booked_jobs old)) \<and>
         (\<forall>f2 av2 st2 en2 db2. update_day_schedule f2 db' m dt av2 st2 en2 = Inr db2 \<longrightarrow>
            (\<exists>day2. get_master_schedule db2 m (strftime_ymd dt) = Some day2 \<and>
                    booked_jobs day2 = (case get_master_schedule db m (strftime_ymd dt) of
                                          None \<Rightarrow> [] | Some old \<Rightarrow> booked_jobs old))) \<and>
         (\<exists>db2. update_day_schedule f db' m dt av st en = Inr db2 \<and>
                (\<forall>m'. get_master_schedule db2 m' = get_master_schedule db' m'))"
proof -
  let ?key = "strftime_ymd dt"
  let ?jobs = "case get_master_schedule db m ?key of None \<Rightarrow> [] | Some old \<Rightarrow> booked_jobs old"
  from upd obtain slot where slot: "day_time_slot f av st en = Inr slot"
    and db': "db' = set_master_schedule db m
                ((get_master_schedule db m)(?key \<mapsto> day_entry (get_master_schedule db m) dt av slot))"
    by (auto simp: update_day_schedule_eq split: sum.splits)
  let ?E = "\<lparr>date = strptime_ymd ?key, available = av, time_slot = slot, booked_jobs = ?jobs\<rparr>"
  have g: "get_master_schedule db' m = (get_master_schedule db m)(?key \<mapsto> ?E)"
    unfolding db' by (rule get_update_day_schedule[OF ex])
  have ex': "fetchone_by_id db' m \<noteq> None"
    using ex unfolding db' by (auto simp: fetchone_set_master_schedule)
  have other: "\<forall>m'. m' \<noteq> m \<longrightarrow> get_master_schedule db' m' = get_master_schedule db m'"
    unfolding db' by (simp add: get_set_other)
  have frame: "\<forall>k. k \<noteq> ?key \<longrightarrow> get_master_schedule db' m k = get_master_schedule db m k"
    by (simp add: g)
  have entry: "\<exists>day. get_master_schedule db' m ?key = Some day \<and> available day = av \<and>
                booked_jobs day = ?jobs"
    by (simp add: g)
  have second: "\<forall>f2 av2 st2 en2 db2. update_day_schedule f2 db' m dt av2 st2 en2 = Inr db2 \<longrightarrow>
            (\<exists>day2. get_master_schedule db2 m ?key = Some day2 \<and> booked_jobs day2 = ?jobs)"
  proof (intro allI impI)
    fix f2 av2 st2 en2 db2
    assume u2: "update_day_schedule f2 db' m dt av2 st2 en2 = Inr db2"
    from u2 obtain slot2 where db2: "db2 = set_master_schedule db' m
                ((get_master_schedule db' m)(?key \<mapsto> day_entry (get_master_schedule db' m) dt av2 slot2))"
      by (auto simp: update_day_schedule_eq split: sum.splits)
    show "\<exists>day2. get_master_schedule db2 m ?key = Some day2 \<and> booked_jobs day2 = ?jobs"
      unfolding db2 get_update_day_schedule[OF ex'] by (simp add: g)
  qed
  have idem: "\<exists>db2. update_day_schedule f db' m dt av st en = Inr db2 \<and>
                (\<forall>m'. get_master_schedule db2 m' = get_master_schedule db' m')"
  proof -
    let ?db2 = "set_master_schedule db' m
                ((get_master_schedule db' m)(?key \<mapsto> day_entry (get_master_schedule db' m) dt av slot))"
    have u: "update_day_schedule f db' m dt av st en = Inr ?db2"
      by (simp add: update_day_schedule_eq slot)
    have same: "get_master_schedule ?db2 m = get_master_schedule db' m"
      unfolding get_update_day_schedule[OF ex'] by (simp add: g)
    have "get_master_schedule ?db2 m' = get_master_schedule db' m'" for m'
      by (cases "m' = m") (simp_all add: same get_set_other)
    with u show ?thesis by blast
  qed
  show ?thesis
    by (rule conjI[OF frame conjI[OF other conjI[OF entry conjI[OF second idem]]]])
qed

theorem update_day_schedule_frame_witness:
  "\<not> isl (update_day_schedule fromisoformat_hhmm [working_master 1 (Some 5) [7, 8]] 1 monday_2pm False None None) \<and>
   map_option booked_jobs
     (get_master_schedule
        (projr (update_day_schedule fromisoformat_hhmm [working_master 1 (Some 5) [7, 8]] 1 monday_2pm False None None))
        1 739558) = Some [7, 8] \<and>
   map_option available
     (get_master_schedule
        (projr (update_day_schedule fromisoformat_hhmm [working_master 1 (Some 5) [7, 8]] 1 monday_2pm False None None))
        1 739558) = Some False"
proof -
  let ?db = "[working_master 1 (Some 5) [7, 8]]"
  let ?r = "update_day_schedule fromisoformat_hhmm ?db 1 monday_2pm False None None"
  have n: "\<not> isl ?r"
    by (simp add: update_day_schedule_eq day_time_slot_None)
  then have u: "?r = Inr (projr ?r)" by simp
  have old: "get_master_schedule ?db 1 (strftime_ymd monday_2pm) =
     Some \<lparr>date = \<lparr>dt_day = 739558, dt_us = 0\<rparr>, available = True,
           time_slot = Some nine_to_six, booked_jobs = [7, 8]\<rparr>"
    unfolding key_monday by (rule sched_working)
  from update_day_schedule_frame[OF fetchone_working u] old n
  show ?thesis by (auto simp: key_monday)
qed

text \<open>
  C10. For a master of the table, \<open>update_day_schedule\<close> with \<open>available = True\<close> and the
  start or the end time missing (\<^verbatim>\<open>None\<close> or the empty string) raises nothing and stores an
  entry that is available and has no time slot. Afterwards \<open>is_master_available\<close> for that
  date answers true without a time and false with any time.
\<close>

theorem update_day_schedule_available_without_slot:
  assumes ex: "fetchone_by_id db m \<noteq> None"
    and missing: "\<not> (truthy st \<and> truthy en)"
  shows "\<exists>db'. update_day_schedule f db m dt True st en = Inr db' \<and>
           (\<exists>day. get_master_schedule db' m (strftime_ymd dt) = Some day \<and>
                  available day \<and> time_slot day = None) \<and>
           is_master_available db' m dt None \<and>
           (\<forall>t. \<not> is_master_available db' m dt (Some t))"
proof -
  let ?db' = "set_master_schedule db m
                ((get_master_schedule db m)(strftime_ymd dt \<mapsto>
                   day_entry (get_master_schedule db m) dt True None))"
  have u: "update_day_schedule f db m dt True st en = Inr ?db'"
    using missing by (simp add: update_day_schedule_eq day_time_slot_None)
  have d: "\<exists>day. get_master_schedule ?db' m (strftime_ymd dt) = Some day \<and>
                  available day \<and> time_slot day = None"
    by (simp add: get_update_day_schedule[OF ex])
  have a: "is_master_available ?db' m dt None"
    by (simp add: is_master_available_def Let_def get_update_day_schedule[OF ex])
  have n: "\<forall>t. \<not> is_master_available ?db' m dt (Some t)"
    by (simp add: is_master_available_def Let_def get_update_day_schedule[OF ex] is_available_at_def)
  show ?thesis
    by (rule exI[of _ ?db']) (rule conjI[OF u conjI[OF d conjI[OF a n]]])
qed

theorem update_day_schedule_available_without_slot_witness:
  "\<not> isl (update_day_schedule fromisoformat_hhmm [new_master 1] 1 monday_2pm True (Some ''09:00'') None) \<and>
   is_master_available
     (projr (update_day_schedule fromisoformat_hhmm [new_master 1] 1 monday_2pm True (Some ''09:00'') None))
     1 monday_2pm None \<and>
   \<not> is_master_available
       (projr (update_day_schedule fromisoformat_hhmm [new_master 1] 1 monday_2pm True (Some ''09:00'') None))
       1 monday_2pm (Some 50400000000)"
proof -
  have t: "\<not> (truthy (Some ''09:00'') \<and> truthy None)"
    by (simp add: truthy_def)
  from update_day_schedule_available_without_slot[OF fetchone_new[of 1] t,
         where f = fromisoformat_hhmm and dt = monday_2pm]
  show ?thesis by auto
qed

text \<open>
  C4. The claim is that \<open>update_day_schedule\<close> fails with an \<^verbatim>\<open>InvalidSlot\<close> error when
  \<open>available\<close> is true and the slot is absent, or when the start of the slot is after its
  end. The code checks neither: on a new master both calls succeed and store the entry, the
  second one with the slot 18:00 to 09:00.
\<close>

theorem update_day_schedule_InvalidSlot_counterexample:
  "\<not> isl (update_day_schedule fromisoformat_hhmm [new_master 1] 1 monday_2pm True None None) \<and>
   \<not> isl (update_day_schedule fromisoformat_hhmm [new_master 1] 1 monday_2pm True
             (Some ''18:00'') (Some ''09:00'')) \<and>
   get_master_schedule
     (projr (update_day_schedule fromisoformat_hhmm [new_master 1] 1 monday_2pm True None None))
     1 739558
     = Some \<lparr>date = \<lparr>dt_day = 739558, dt_us = 0\<rparr>, available = True, time_slot = None,
             booked_jobs = []\<rparr> \<and>
   get_master_schedule
     (projr (update_day_schedule fromisoformat_hhmm [new_master 1] 1 monday_2pm True
               (Some ''18:00'') (Some ''09:00'')))
     1 739558
     = Some \<lparr>date = \<lparr>dt_day = 739558, dt_us = 0\<rparr>, available = True,
             time_slot = Some \<lparr>slot_start = 64800000000, slot_end = 32400000000\<rparr>,
             booked_jobs = []\<rparr>"
proof -
  have a: "day_time_slot fromisoformat_hhmm True None None = Inr None"
    by (simp add: day_time_slot_None truthy_def)
  have b: "day_time_slot fromisoformat_hhmm True (Some ''18:00'') (Some ''09:00'')
             = Inr (Some \<lparr>slot_start = 64800000000, slot_end = 32400000000\<rparr>)"
    using day_time_slot_Some[OF _ _ hhmm_1800 hhmm_0900] by simp
  have g: "get_master_schedule
             (set_master_schedule [new_master 1] 1
                ((get_master_schedule [new_master 1] 1)(strftime_ymd monday_2pm \<mapsto>
                   day_entry (get_master_schedule [new_master 1] 1) monday_2pm True slot))) 1 739558
           = Some \<lparr>date = \<lparr>dt_day = 739558, dt_us = 0\<rparr>, available = True, time_slot = slot,
                   booked_jobs = []\<rparr>" for slot
    unfolding get_update_day_schedule[OF fetchone_new]
    by (simp add: sched_new key_monday strptime_ymd_def)
  show ?thesis
    by (simp add: update_day_schedule_eq a b g)
qed

text \<open>
  C4, as the code has it. \<open>update_day_schedule\<close> validates no slot. Called with
  \<open>available = True\<close> and a missing start or end it does not fail: it stores an available
  entry without a slot. Called with \<open>available = True\<close> and two non-empty strings that
  \<^verbatim>\<open>time.fromisoformat\<close> reads it does not fail either: it stores the slot as given,
  whatever the order of the two times, so also when the start is after the end.
\<close>

theorem update_day_schedule_no_validation:
  "(\<not> (truthy st \<and> truthy en) \<longrightarrow>
      (\<exists>db'. update_day_schedule f db m dt True st en = Inr db' \<and>
             (fetchone_by_id db m \<noteq> None \<longrightarrow>
                map_option available (get_master_schedule db' m (strftime_ymd dt)) = Some True \<and>
                map_option time_slot (get_master_schedule db' m (strftime_ymd dt)) = Some None))) \<and>
   (\<forall>a b s e. a \<noteq> [] \<and> b \<noteq> [] \<and> f a = Some s \<and> f b = Some e \<longrightarrow>
      (\<exists>db'. update_day_schedule f db m dt True (Some a) (Some b) = Inr db' \<and>
             (fetchone_by_id db m \<noteq> None \<longrightarrow>
                map_option available (get_master_schedule db' m (strftime_ymd dt)) = Some True \<and>
                map_option time_slot (get_master_schedule db' m (strftime_ymd dt))
                  = Some (Some \<lparr>slot_start = s, slot_end = e\<rparr>))))"
proof -
  have p1: "\<not> (truthy st \<and> truthy en) \<longrightarrow>
      (\<exists>db'. update_day_schedule f db m dt True st en = Inr db' \<and>
             (fetchone_by_id db m \<noteq> None \<longrightarrow>
                map_option available (get_master_schedule db' m (strftime_ymd dt)) = Some True \<and>
                map_option time_slot (get_master_schedule db' m (strftime_ymd dt)) = Some None))"
    by (simp add: update_day_schedule_eq day_time_slot_None get_update_day_schedule)
  have p2: "\<forall>a b s e. a \<noteq> [] \<and> b \<noteq> [] \<and> f a = Some s \<and> f b = Some e \<longrightarrow>
      (\<exists>db'. update_day_schedule f db m dt True (Some a) (Some b) = Inr db' \<and>
             (fetchone_by_id db m \<noteq> None \<longrightarrow>
                map_option available (get_master_schedule db' m (strftime_ymd dt)) = Some True \<and>
                map_option time_slot (get_master_schedule db' m (strftime_ymd dt))
                  = Some (Some \<lparr>slot_start = s, slot_end = e\<rparr>)))"
  proof (intro allI impI)
    fix a b s e
    assume h: "a \<noteq> [] \<and> b \<noteq> [] \<and> f a = Some s \<and> f b = Some e"
    then have ts: "day_time_slot f True (Some a) (Some b) = Inr (Some \<lparr>slot_start = s, slot_end = e\<rparr>)"
      by (simp add: day_time_slot_Some)
    show "\<exists>db'. update_day_schedule f db m dt True (Some a) (Some b) = Inr db' \<and>
             (fetchone_by_id db m \<noteq> None \<longrightarrow>
                map_option available (get_master_schedule db' m (strftime_ymd dt)) = Some True \<and>
                map_option time_slot (get_master_schedule db' m (strftime_ymd dt))
                  = Some (Some \<lparr>slot_start = s, slot_end = e\<rparr>))"
      by (simp add: update_day_schedule_eq ts get_update_day_schedule)
  qed
  show ?thesis by (rule conjI[OF p1 p2])
qed

theorem update_day_schedule_no_validation_witness:
  "\<not> isl (update_day_schedule fromisoformat_hhmm [new_master 1] 1 monday_2pm True (Some ''09:00'') None) \<and>
   map_option time_slot
     (get_master_schedule
        (projr (update_day_schedule fromisoformat_hhmm [new_master 1] 1 monday_2pm True
                  (Some ''09:00'') None)) 1 739558)
     = Some None \<and>
   map_option time_slot
     (get_master_schedule
        (projr (update_day_schedule fromisoformat_hhmm [new_master 1] 1 monday_2pm True
                  (Some ''18:00'') (Some ''09:00''))) 1 739558)
     = Some (Some \<lparr>slot_start = 64800000000, slot_end = 32400000000\<rparr>)"
proof -
  have t: "\<not> (truthy (Some ''09:00'') \<and> truthy None)"
    by (simp add: truthy_def)
  note T = update_day_schedule_no_validation[where f = fromisoformat_hhmm
              and db = "[new_master 1]" and m = 1 and dt = monday_2pm]
  have w1: "\<exists>db'. update_day_schedule fromisoformat_hhmm [new_master 1] 1 monday_2pm True
                   (Some ''09:00'') None = Inr db' \<and>
                 map_option time_slot (get_master_schedule db' 1 (strftime_ymd monday_2pm)) = Some None"
    using T[where st = "Some ''09:00''" and en = None, THEN conjunct1] t fetchone_new[of 1] by blast
  have h: "''18:00'' \<noteq> [] \<and> ''09:00'' \<noteq> [] \<and>
           fromisoformat_hhmm ''18:00'' = Some 64800000000 \<and>
           fromisoformat_hhmm ''09:00'' = Some 32400000000"
    using hhmm_0900 hhmm_1800 by simp
  have w2: "\<exists>db'. update_day_schedule fromisoformat_hhmm [new_master 1] 1 monday_2pm True
                   (Some ''18:00'') (Some ''09:00'') = Inr db' \<and>
                 map_option time_slot (get_master_schedule db' 1 (strftime_ymd monday_2pm))
                   = Some (Some \<lparr>slot_start = 64800000000, slot_end = 32400000000\<rparr>)"
    using T[THEN conjunct2, rule_format, OF h] fetchone_new[of 1] by blast
  from w1 w2 show ?thesis
    by (auto simp: key_monday)
qed

subsection \<open>The slot of an unavailable day\<close>

text \<open>
  C7. No operation stores a time slot on a day that is not available: if the record of a
  master has no slot on its unavailable days, it has none after \<open>update_day_schedule\<close>,
  after \<open>create_weekly_schedule\<close> and after \<open>book_master_for_job\<close> (the record of a new
  master is empty). In particular \<open>update_day_schedule\<close> with \<open>available = False\<close> always
  succeeds, the master is then not available on that date, with or without a time, and the
  entry stored for a master of the table is unavailable and has no slot, whatever was stored
  before and whatever times were passed.
\<close>

theorem slot_only_if_available_invariant:
  "(\<forall>db'. update_day_schedule f db m dt av st en = Inr db' \<longrightarrow>
      schedule_ok (get_master_schedule db m') \<longrightarrow> schedule_ok (get_master_schedule db' m')) \<and>
   (\<forall>db'. create_weekly_schedule f db now m a b wd = Inr db' \<longrightarrow>
      schedule_ok (get_master_schedule db m') \<longrightarrow> schedule_ok (get_master_schedule db' m')) \<and>
   (schedule_ok (get_master_schedule db m') \<longrightarrow>
      schedule_ok (get_master_schedule (book_master_for_job db m j dt) m')) \<and>
   (\<exists>db'. update_day_schedule f db m dt False st en = Inr db' \<and>
          \<not> is_master_available db' m dt ct \<and>
          (fetchone_by_id db m \<noteq> None \<longrightarrow>
             (\<exists>day. get_master_schedule db' m (strftime_ymd dt) = Some day \<and>
                    \<not> available day \<and> time_slot day = None)))"
proof -
  let ?db' = "set_master_schedule db m
                ((get_master_schedule db m)(strftime_ymd dt \<mapsto>
                   day_entry (get_master_schedule db m) dt False None))"
  have u: "update_day_schedule f db m dt False st en = Inr ?db'"
    by (simp add: update_day_schedule_eq day_time_slot_None)
  have stored: "\<exists>day. get_master_schedule ?db' m (strftime_ymd dt) = Some day \<and>
                    \<not> available day \<and> time_slot day = None"
    if ex: "fetchone_by_id db m \<noteq> None"
    by (simp add: get_update_day_schedule[OF ex])
  have na: "\<not> is_master_available ?db' m dt ct"
  proof (cases "fetchone_by_id db m = None")
    case True
    then show ?thesis
      by (simp add: set_absent is_master_available_def get_absent)
  next
    case False
    then show ?thesis
      by (cases ct) (simp_all add: is_master_available_def Let_def get_update_day_schedule[OF False]
            is_available_at_def)
  qed
  have last: "\<exists>db'. update_day_schedule f db m dt False st en = Inr db' \<and>
          \<not> is_master_available db' m dt ct \<and>
          (fetchone_by_id db m \<noteq> None \<longrightarrow>
             (\<exists>day. get_master_schedule db' m (strftime_ymd dt) = Some day \<and>
                    \<not> available day \<and> time_slot day = None))"
  proof -
    have s3: "fetchone_by_id db m \<noteq> None \<longrightarrow>
             (\<exists>day. get_master_schedule ?db' m (strftime_ymd dt) = Some day \<and>
                    \<not> available day \<and> time_slot day = None)"
      by (intro impI) (rule stored)
    show ?thesis
      by (rule exI[of _ ?db']) (rule conjI[OF u conjI[OF na s3]])
  qed
  have p1: "\<forall>db'. update_day_schedule f db m dt av st en = Inr db' \<longrightarrow>
      schedule_ok (get_master_schedule db m') \<longrightarrow> schedule_ok (get_master_schedule db' m')"
    by (intro allI impI) (rule update_ok)
  have p2: "\<forall>db'. create_weekly_schedule f db now m a b wd = Inr db' \<longrightarrow>
      schedule_ok (get_master_schedule db m') \<longrightarrow> schedule_ok (get_master_schedule db' m')"
    by (intro allI impI) (rule create_ok)
  have p3: "schedule_ok (get_master_schedule db m') \<longrightarrow>
      schedule_ok (get_master_schedule (book_master_for_job db m j dt) m')"
    by (intro impI) (rule book_ok)
  show ?thesis
    by (rule conjI[OF p1 conjI[OF p2 conjI[OF p3 last]]])
qed

theorem slot_only_if_available_invariant_witness:
  "schedule_ok (get_master_schedule [working_master 1 (Some 5) [7]] 1) \<and>
   schedule_ok (get_master_schedule
                  (projr (update_day_schedule fromisoformat_hhmm [working_master 1 (Some 5) [7]] 1
                            monday_2pm False (Some ''09:00'') (Some ''18:00''))) 1) \<and>
   schedule_ok (get_master_schedule
                  (projr (create_weekly_schedule fromisoformat_hhmm [working_master 1 (Some 5) [7]]
                            monday_2pm 1 ''09:00'' ''18:00'' None)) 1) \<and>
   schedule_ok (get_master_schedule (book_master_for_job [working_master 1 (Some 5) [7]] 1 9 monday_2pm) 1) \<and>
   \<not> is_master_available
        (projr (update_day_schedule fromisoformat_hhmm [working_master 1 (Some 5) [7]] 1
                  monday_2pm False (Some ''09:00'') (Some ''18:00''))) 1 monday_2pm None \<and>
   map_option time_slot
     (get_master_schedule
        (projr (update_day_schedule fromisoformat_hhmm [working_master 1 (Some 5) [7]] 1
                  monday_2pm False (Some ''09:00'') (Some ''18:00''))) 1 739558) = Some None"
proof -
  let ?db = "[working_master 1 (Some 5) [7]]"
  let ?u = "update_day_schedule fromisoformat_hhmm ?db 1 monday_2pm False (Some ''09:00'') (Some ''18:00'')"
  let ?c = "create_weekly_schedule fromisoformat_hhmm ?db monday_2pm 1 ''09:00'' ''18:00'' None"
  have ok: "schedule_ok (get_master_schedule ?db 1)"
    by (auto simp: schedule_ok_iff get_master_schedule_def fetchone_by_id_def working_master_def
          from_dict_def slot_only_if_available_def split: if_splits)
  have "\<not> isl ?u"
    by (simp add: update_day_schedule_eq day_time_slot_None)
  then have u: "?u = Inr (projr ?u)" by simp
  obtain sched where "weekly_loop fromisoformat_hhmm (dt_day monday_2pm) ''09:00'' ''18:00''
                        [0, 1, 2, 3, 4] [0..<7] Map.empty = Inr sched"
    using weekly_loop_Inr[OF hhmm_0900 hhmm_1800] by blast
  then have "\<not> isl ?c"
    by (simp add: create_weekly_schedule_def Let_def)
  then have c: "?c = Inr (projr ?c)" by simp
  from slot_only_if_available_invariant[where f = fromisoformat_hhmm and db = ?db and m = 1
         and dt = monday_2pm and av = False and st = "Some ''09:00''" and en = "Some ''18:00''"
         and m' = 1 and now = monday_2pm and a = "''09:00''" and b = "''18:00''" and wd = None
         and j = 9 and ct = None]
       ok u c fetchone_working[of 1 "Some 5" "[7]"]
  show ?thesis by (auto simp: key_monday)
qed

subsection \<open>The weekly schedule\<close>

text \<open>
  C3. For a master of the table and two strings that \<^verbatim>\<open>time.fromisoformat\<close> reads,
  \<open>create_weekly_schedule\<close> succeeds and replaces the whole record of the master: the record
  then has exactly the 7 consecutive days that begin today. A day whose weekday is among the
  working days is available with the slot of the two times, every other day is unavailable
  and has no slot, no day has a booked job, and every date outside the 7 days has no entry,
  whatever was stored before.
\<close>

theorem create_weekly_schedule_replaces:
  assumes ex: "fetchone_by_id db m \<noteq> None"
    and pa: "fromisoformat a = Some s"
    and pb: "fromisoformat b = Some e"
  shows "\<exists>db'. create_weekly_schedule fromisoformat db now m a b working_days = Inr db' \<and>
           dom (get_master_schedule db' m) = {dt_day now .. dt_day now + 6} \<and>
           card (dom (get_master_schedule db' m)) = 7 \<and>
           (\<forall>k \<in> {dt_day now .. dt_day now + 6}.
              get_master_schedule db' m k =
                Some (week_entry (case working_days of None \<Rightarrow> [0, 1, 2, 3, 4] | Some l \<Rightarrow> l)
                        \<lparr>slot_start = s, slot_end = e\<rparr> k)) \<and>
           (\<forall>k. k \<notin> {dt_day now .. dt_day now + 6} \<longrightarrow> get_master_schedule db' m k = None)"
proof -
  let ?wd = "case working_days of None \<Rightarrow> [0, 1, 2, 3, 4] | Some l \<Rightarrow> l"
  let ?W = "{dt_day now .. dt_day now + 6}"
  let ?slot = "\<lparr>slot_start = s, slot_end = e\<rparr>"
  from weekly_loop_Inr[OF pa pb, of "dt_day now" ?wd "[0..<7]" Map.empty]
  obtain sched where w: "weekly_loop fromisoformat (dt_day now) a b ?wd [0..<7] Map.empty = Inr sched"
    and sk: "\<And>k. sched k = (if k \<in> ?W then Some (week_entry ?wd ?slot k) else None)"
    unfolding window week_entry_eq by blast
  let ?db' = "set_master_schedule db m sched"
  have c: "create_weekly_schedule fromisoformat db now m a b working_days = Inr ?db'"
    by (simp add: create_weekly_schedule_def Let_def w)
  have g: "get_master_schedule ?db' m k = (if k \<in> ?W then Some (week_entry ?wd ?slot k) else None)" for k
    by (simp add: get_set_same[OF ex] sk week_entry_reload)
  have d: "dom (get_master_schedule ?db' m) = ?W"
    by (auto simp: dom_def g)
  have n: "card (dom (get_master_schedule ?db' m)) = 7"
    unfolding d by simp
  have inside: "\<forall>k \<in> ?W. get_master_schedule ?db' m k = Some (week_entry ?wd ?slot k)"
    by (simp add: g)
  have outside: "\<forall>k. k \<notin> ?W \<longrightarrow> get_master_schedule ?db' m k = None"
    by (simp add: g)
  show ?thesis
    by (rule exI[of _ ?db']) (rule conjI[OF c conjI[OF d conjI[OF n conjI[OF inside outside]]]])
qed

theorem create_weekly_schedule_replaces_witness:
  "get_master_schedule [working_master 1 (Some 5) [7]] 1 739558
     = Some \<lparr>date = \<lparr>dt_day = 739558, dt_us = 0\<rparr>, available = True,
             time_slot = Some nine_to_six, booked_jobs = [7]\<rparr> \<and>
   \<not> isl (create_weekly_schedule fromisoformat_hhmm [working_master 1 (Some 5) [7]]
            \<lparr>dt_day = 739565, dt_us = 50400000000\<rparr> 1 ''09:00'' ''18:00'' (Some [0, 1, 2, 3, 4])) \<and>
   get_master_schedule
     (projr (create_weekly_schedule fromisoformat_hhmm [working_master 1 (Some 5) [7]]
               \<lparr>dt_day = 739565, dt_us = 50400000000\<rparr> 1 ''09:00'' ''18:00'' (Some [0, 1, 2, 3, 4])))
     1 739558 = None \<and>
   get_master_schedule
     (projr (create_weekly_schedule fromisoformat_hhmm [working_master 1 (Some 5) [7]]
               \<lparr>dt_day = 739565, dt_us = 50400000000\<rparr> 1 ''09:00'' ''18:00'' (Some [0, 1, 2, 3, 4])))
     1 739565
     = Some \<lparr>date = \<lparr>dt_day = 739565, dt_us = 0\<rparr>, available = True,
             time_slot = Some nine_to_six, booked_jobs = []\<rparr> \<and>
   get_master_schedule
     (projr (create_weekly_schedule fromisoformat_hhmm [working_master 1 (Some 5) [7]]
               \<lparr>dt_day = 739565, dt_us = 50400000000\<rparr> 1 ''09:00'' ''18:00'' (Some [0, 1, 2, 3, 4])))
     1 739570
     = Some \<lparr>date = \<lparr>dt_day = 739570, dt_us = 0\<rparr>, available = False,
             time_slot = None, booked_jobs = []\<rparr>"
proof -
  let ?c = "create_weekly_schedule fromisoformat_hhmm [working_master 1 (Some 5) [7]]
               \<lparr>dt_day = 739565, dt_us = 50400000000\<rparr> 1 ''09:00'' ''18:00'' (Some [0, 1, 2, 3, 4])"
  from create_weekly_schedule_replaces[OF fetchone_working[of 1 "Some 5" "[7]"] hhmm_0900 hhmm_1800,
         of "\<lparr>dt_day = 739565, dt_us = 50400000000\<rparr>" "Some [0, 1, 2, 3, 4]"]
  obtain db' where c: "?c = Inr db'"
    and inside: "\<forall>k \<in> {739565 .. 739571}. get_master_schedule db' 1 k =
                   Some (week_entry [0, 1, 2, 3, 4] \<lparr>slot_start = 32400000000, slot_end = 64800000000\<rparr> k)"
    and outside: "\<forall>k. k \<notin> {739565 .. 739571} \<longrightarrow> get_master_schedule db' 1 k = None"
    by auto
  have a: "get_master_schedule db' 1 739558 = None" using outside by simp
  have b: "get_master_schedule db' 1 739565 =
             Some (week_entry [0, 1, 2, 3, 4] \<lparr>slot_start = 32400000000, slot_end = 64800000000\<rparr> 739565)"
    using inside by simp
  have d: "get_master_schedule db' 1 739570 =
             Some (week_entry [0, 1, 2, 3, 4] \<lparr>slot_start = 32400000000, slot_end = 64800000000\<rparr> 739570)"
    using inside by simp
  show ?thesis
    by (simp add: c a b d sched_working week_entry_eq nine_to_six_def)
qed

subsection \<open>The best available master\<close>

text \<open>
  C1. The claim is that the candidate whose score \<open>rating * 10 - workload\<close> is maximal is
  returned. The code reads the rating as \<^verbatim>\<open>rating or 5.0\<close>, and \<^verbatim>\<open>0.0\<close> is false in
  Python, so a stored rating of 0.0 is scored as 5.0. On the table of master 1, rated 0.0,
  and master 2, rated 4.0, both available and neither with a job, the scores of the claim
  are 0 and 40 and master 2 is the best; the code scores master 1 with 50 and returns it.
  This holds for every arithmetic in which \<open>5.0 * 10 - 0\<close> is above \<open>4.0 * 10 - 0\<close>, as it is in
  double precision (50.0 and 40.0).
\<close>

theorem find_best_available_master_zero_rating:
  assumes "times10_minus 4 0 < times10_minus 5 0"
  shows "find_best_available_master like_contains times10_minus
           [working_master 1 (Some 0) [], working_master 2 (Some 4) []]
           ''electrical'' ''Kaliningrad'' monday_2pm None = Inr (Some 1) \<and>
         get_available_masters like_contains
           [working_master 1 (Some 0) [], working_master 2 (Some 4) []]
           ''electrical'' ''Kaliningrad'' monday_2pm None = [1, 2] \<and>
         get_master_workload [working_master 1 (Some 0) [], working_master 2 (Some 4) []] 1 monday_2pm = 0 \<and>
         get_master_workload [working_master 1 (Some 0) [], working_master 2 (Some 4) []] 2 monday_2pm = 0"
proof -
  let ?db = "[working_master 1 (Some 0) [], working_master 2 (Some 4) []]"
  have f: "fetchone_by_id ?db 1 = Some (working_master 1 (Some 0) [])"
    "fetchone_by_id ?db 2 = Some (working_master 2 (Some 4) [])"
    by (simp_all add: fetchone_by_id_def working_master_def)
  have g: "get_master_schedule ?db 1 739558 =
             Some \<lparr>date = \<lparr>dt_day = 739558, dt_us = 0\<rparr>, available = True,
                   time_slot = Some nine_to_six, booked_jobs = []\<rparr>"
    "get_master_schedule ?db 2 739558 =
             Some \<lparr>date = \<lparr>dt_day = 739558, dt_us = 0\<rparr>, available = True,
                   time_slot = Some nine_to_six, booked_jobs = []\<rparr>"
    by (simp_all add: get_master_schedule_def f)
       (simp_all add: working_master_def from_dict_def strptime_ymd_def)
  have a: "is_master_available ?db 1 monday_2pm None" "is_master_available ?db 2 monday_2pm None"
    by (simp_all add: is_master_available_def Let_def key_monday g)
  have c: "get_available_masters like_contains ?db ''electrical'' ''Kaliningrad'' monday_2pm None = [1, 2]"
    using a like_electrical(1) by (simp add: get_available_masters_def Let_def) (simp add: working_master_def)
  have w: "get_master_workload ?db 1 monday_2pm = 0" "get_master_workload ?db 2 monday_2pm = 0"
    by (simp_all add: get_master_workload_length key_monday g)
  have s: "master_score times10_minus ?db monday_2pm 1 = times10_minus 5 0"
    "master_score times10_minus ?db monday_2pm 2 = times10_minus 4 0"
    by (simp_all add: master_score_def f w)
       (simp_all add: working_master_def rating_or_default_def)
  have so: "sort_key_desc (master_score times10_minus ?db monday_2pm) [1, 2] = [1, 2]"
    using assms by (simp add: sort_key_desc_def s)
  have r: "find_best_available_master like_contains times10_minus ?db
             ''electrical'' ''Kaliningrad'' monday_2pm None = Inr (Some 1)"
    by (simp add: find_best_available_master_eq c so)
  show ?thesis
    by (rule conjI[OF r conjI[OF c conjI[OF w(1) w(2)]]])
qed

theorem find_best_available_master_zero_rating_witness:
  "exact_times10_minus 4 0 < exact_times10_minus 5 0 \<and>
   find_best_available_master like_contains exact_times10_minus
     [working_master 1 (Some 0) [], working_master 2 (Some 4) []]
     ''electrical'' ''Kaliningrad'' monday_2pm None = Inr (Some 1) \<and>
   exact_times10_minus 0 0 < exact_times10_minus 4 0"
proof -
  have h: "exact_times10_minus 4 0 < exact_times10_minus 5 0"
    by (simp add: exact_times10_minus_def)
  have k: "exact_times10_minus 0 0 < exact_times10_minus 4 0"
    by (simp add: exact_times10_minus_def)
  from find_best_available_master_zero_rating[where times10_minus = exact_times10_minus, OF h] h k
  show ?thesis by simp
qed

subsection \<open>The selection of the job intake\<close>

text \<open>
  C8. The claim is that \<open>find_available_master\<close> returns none only when no active master of
  the city has the category in the specializations. The query also requires
  \<^verbatim>\<open>terminal_active = 1\<close>: a table whose only master is active, in the city and of the
  category, but whose terminal is not active, gives none.
\<close>

theorem find_available_master_terminal_counterexample:
  "find_available_master like_contains [new_master 1] ''electrical'' ''Kaliningrad'' = None \<and>
   is_active (new_master 1) \<and> city (new_master 1) = ''Kaliningrad'' \<and>
   like_contains (''%'' @ ''electrical'' @ ''%'') (specializations (new_master 1)) \<and>
   \<not> terminal_active (new_master 1)"
proof -
  have n: "\<not> intake_match like_contains ''electrical'' ''Kaliningrad'' (new_master 1)"
    by (simp add: intake_match_def new_master_def)
  have f: "find_available_master like_contains [new_master 1] ''electrical'' ''Kaliningrad'' = None"
    by (simp add: find_available_master_eq n)
  have a: "is_active (new_master 1)" and c: "city (new_master 1) = ''Kaliningrad''"
    and t: "\<not> terminal_active (new_master 1)"
    by (simp_all add: new_master_def)
  show ?thesis
    by (rule conjI[OF f conjI[OF a conjI[OF c conjI[OF like_electrical(2) t]]]])
qed

text \<open>
  C8, as the code has it. \<open>find_available_master\<close> returns none exactly when no row is
  active, terminal-active, of the city, and with specializations that match the pattern
  \<^verbatim>\<open>%category%\<close>; otherwise it returns the id of such a row whose rating is the highest
  among them (a \<^verbatim>\<open>NULL\<close> rating is below every number). The result does not depend on the
  stored schedules, hence not on availability or workload, nor on the confirmation
  timestamps.
\<close>

theorem find_available_master_spec:
  "(find_available_master like db category cty = None \<longleftrightarrow>
      \<not> (\<exists>row \<in> set db. intake_match like category cty row)) \<and>
   (\<forall>m. find_available_master like db category cty = Some m \<longrightarrow>
      (\<exists>row \<in> set db. row_id row = m \<and> intake_match like category cty row \<and>
         (\<forall>r \<in> set db. intake_match like category cty r \<longrightarrow> rating r \<le> rating row))) \<and>
   find_available_master like
     (map (\<lambda>r. r\<lparr>schedule_json := sj r, last_schedule_confirmation := lc r\<rparr>) db) category cty
     = find_available_master like db category cty"
proof -
  let ?P = "intake_match like category cty"
  let ?rows = "filter ?P db"
  let ?h = "\<lambda>r. r\<lparr>schedule_json := sj r, last_schedule_confirmation := lc r\<rparr>"
  have p1: "find_available_master like db category cty = None \<longleftrightarrow> \<not> (\<exists>row \<in> set db. ?P row)"
    by (auto simp: find_available_master_eq filter_empty_conv)
  have p2: "\<forall>m. find_available_master like db category cty = Some m \<longrightarrow>
      (\<exists>row \<in> set db. row_id row = m \<and> ?P row \<and>
         (\<forall>r \<in> set db. ?P r \<longrightarrow> rating r \<le> rating row))"
  proof (intro allI impI)
    fix m
    assume s: "find_available_master like db category cty = Some m"
    then have ne: "?rows \<noteq> []" and m: "m = row_id (hd (sort_key_desc rating ?rows))"
      by (auto simp: find_available_master_eq split: if_splits)
    let ?b = "hd (sort_key_desc rating ?rows)"
    from hd_sort_key_desc[OF ne, of rating] obtain pre post where
      d: "?rows = pre @ ?b # post"
      and p: "\<forall>y \<in> set pre. rating y < rating ?b"
      and q: "\<forall>y \<in> set post. rating y \<le> rating ?b" by blast
    have sub: "set ?rows = set pre \<union> {?b} \<union> set post"
      by (subst d) auto
    then have "?b \<in> set ?rows" by blast
    then have b: "?b \<in> set db" "?P ?b" by auto
    have mx: "\<forall>r \<in> set db. ?P r \<longrightarrow> rating r \<le> rating ?b"
    proof (intro ballI impI)
      fix r assume "r \<in> set db" "?P r"
      then have "r \<in> set ?rows" by simp
      with sub have "r \<in> set pre \<or> r = ?b \<or> r \<in> set post" by blast
      with p q show "rating r \<le> rating ?b" by (auto simp: less_imp_le)
    qed
    from b mx m show "\<exists>row \<in> set db. row_id row = m \<and> ?P row \<and>
         (\<forall>r \<in> set db. ?P r \<longrightarrow> rating r \<le> rating row)" by blast
  qed
  have ph: "?P (?h r) = ?P r" for r
    by (simp add: intake_match_def)
  have fh: "filter ?P (map ?h db) = map ?h ?rows"
    by (simp add: filter_map comp_def ph)
  have sh: "sort_key_desc rating (map ?h ?rows) = map ?h (sort_key_desc rating ?rows)"
    by (simp add: sort_key_desc_map_gen)
  have p3: "find_available_master like (map ?h db) category cty
              = find_available_master like db category cty"
  proof (cases "?rows = []")
    case True
    then show ?thesis by (simp add: find_available_master_eq fh)
  next
    case False
    then have "sort_key_desc rating ?rows \<noteq> []" by (simp add: sort_key_desc_Nil)
    then have "hd (map ?h (sort_key_desc rating ?rows)) = ?h (hd (sort_key_desc rating ?rows))"
      by (rule hd_map)
    with False show ?thesis by (simp add: find_available_master_eq fh sh)
  qed
  show ?thesis by (rule conjI[OF p1 conjI[OF p2 p3]])
qed

theorem find_available_master_spec_witness:
  "find_available_master like_contains
     [(working_master 1 (Some 4) []), (working_master 2 (Some 5) [11, 12, 13]), new_master 3]
     ''electrical'' ''Kaliningrad'' = Some 2 \<and>
   find_available_master like_contains [working_master 1 (Some 4) []] ''plumbing'' ''Kaliningrad'' = None"
proof -
  let ?db = "[(working_master 1 (Some 4) []), (working_master 2 (Some 5) [11, 12, 13]), new_master 3]"
  have im: "intake_match like_contains ''electrical'' ''Kaliningrad'' (working_master i r js)" for i r js
    using like_electrical(1)[of i r js] by (simp add: intake_match_def) (simp add: working_master_def)
  have nm: "\<not> intake_match like_contains ''electrical'' ''Kaliningrad'' (new_master 3)"
    by (simp add: intake_match_def new_master_def)
  have np: "\<not> intake_match like_contains ''plumbing'' ''Kaliningrad'' (working_master 1 (Some 4) [])"
    by (simp add: intake_match_def like_contains_def working_master_def)
  have r: "rating (working_master i r js) = r" "row_id (working_master i r js) = i" for i r js
    by (simp_all add: working_master_def)
  note T = find_available_master_spec[of like_contains ?db "''electrical''" "''Kaliningrad''"]
  have "find_available_master like_contains ?db ''electrical'' ''Kaliningrad'' \<noteq> None"
    using T[THEN conjunct1] im by simp
  then obtain m where m: "find_available_master like_contains ?db ''electrical'' ''Kaliningrad'' = Some m"
    by auto
  from T[THEN conjunct2, THEN conjunct1, rule_format, OF m] im nm
  have "m = 2" by (auto simp: r)
  moreover have "find_available_master like_contains [working_master 1 (Some 4) []] ''plumbing'' ''Kaliningrad'' = None"
    using find_available_master_spec[of like_contains "[working_master 1 (Some 4) []]" "''plumbing''" "''Kaliningrad''",
            THEN conjunct1] np by simp
  ultimately show ?thesis using m by simp
qed

end
